theory Spec2Isabelle
  imports Main "HOL-Library.Word" "HOL-Library.AList"
begin

section \<open>Strings and buffers\<close>

text \<open>
  A JavaScript string is a sequence of 16-bit code units and a \<open>Buffer\<close> is a sequence of
  bytes. String literals of the source are written \<open>js ''...''\<close>.
\<close>

type_synonym code_unit = "16 word"
type_synonym jsstring = "code_unit list"
type_synonym byte = "8 word"
type_synonym buffer = "byte list"

definition js :: "string \<Rightarrow> jsstring" where
  "js s = map of_char s"

abbreviation SLASH :: code_unit where "SLASH \<equiv> 0x2F"
abbreviation DOT :: code_unit where "DOT \<equiv> 0x2E"
abbreviation QUESTION :: code_unit where "QUESTION \<equiv> 0x3F"
abbreviation PERCENT :: code_unit where "PERCENT \<equiv> 0x25"

text \<open>\<open>s.split(sep)\<close> for a separator of one code unit: the result is never empty.\<close>

fun split_on :: "code_unit \<Rightarrow> jsstring \<Rightarrow> jsstring list" where
  "split_on d [] = [[]]"
| "split_on d (c # cs) =
     (if c = d then [] # split_on d cs
      else (case split_on d cs of
              [] \<Rightarrow> [[c]]
            | x # xs \<Rightarrow> (c # x) # xs))"

text \<open>\<open>xs[i]\<close> on an array: \<open>undefined\<close> (here \<open>None\<close>) out of range.\<close>

fun at_index :: "'a list \<Rightarrow> nat \<Rightarrow> 'a option" where
  "at_index [] i = None"
| "at_index (x # xs) 0 = Some x"
| "at_index (x # xs) (Suc i) = at_index xs i"

text \<open>
  \<open>String.prototype.trim\<close> removes the code units of ECMAScript's WhiteSpace and
  LineTerminator productions from both ends.
\<close>

definition is_js_space :: "code_unit \<Rightarrow> bool" where
  "is_js_space c \<longleftrightarrow>
     c \<in> set [0x09, 0x0A, 0x0B, 0x0C, 0x0D, 0x20, 0xA0, 0x1680,
              0x2000, 0x2001, 0x2002, 0x2003, 0x2004, 0x2005, 0x2006, 0x2007, 0x2008,
              0x2009, 0x200A, 0x2028, 0x2029, 0x202F, 0x205F, 0x3000, 0xFEFF]"

definition trim :: "jsstring \<Rightarrow> jsstring" where
  "trim s = rev (dropWhile is_js_space (rev (dropWhile is_js_space s)))"

text \<open>\<open>String.prototype.startsWith\<close>.\<close>

definition startsWith :: "jsstring \<Rightarrow> jsstring \<Rightarrow> bool" where
  "startsWith s p \<longleftrightarrow> take (length p) s = p"

subsection \<open>decodeURIComponent\<close>

text \<open>
  The ECMAScript \<open>Decode\<close> operation with an empty set of preserved escapes. \<open>None\<close> is
  the thrown \<open>URIError\<close>. An escape \<open>%XX\<close> whose octet starts a UTF-8 sequence of \<open>n\<close>
  octets must be followed by \<open>n - 1\<close> further escapes that together encode one code point,
  which is appended in UTF-16.
\<close>

definition hex_digit :: "code_unit \<Rightarrow> nat option" where
  "hex_digit c =
     (if 0x30 \<le> c \<and> c \<le> 0x39 then Some (unat c - 0x30)
      else if 0x41 \<le> c \<and> c \<le> 0x46 then Some (unat c - 0x41 + 10)
      else if 0x61 \<le> c \<and> c \<le> 0x66 then Some (unat c - 0x61 + 10)
      else None)"

definition hex_octet :: "code_unit \<Rightarrow> code_unit \<Rightarrow> nat option" where
  "hex_octet h l =
     (case hex_digit h of
        None \<Rightarrow> None
      | Some a \<Rightarrow> (case hex_digit l of None \<Rightarrow> None | Some b \<Rightarrow> Some (16 * a + b)))"

text \<open>The number of leading one bits of an octet.\<close>

definition leading_ones :: "nat \<Rightarrow> nat" where
  "leading_ones b =
     (if b < 0x80 then 0 else if b < 0xC0 then 1 else if b < 0xE0 then 2
      else if b < 0xF0 then 3 else if b < 0xF8 then 4 else 5)"

text \<open>Reads \<open>n\<close> escapes \<open>%XX\<close> from the front of a string.\<close>

fun take_escapes :: "nat \<Rightarrow> jsstring \<Rightarrow> (nat list \<times> jsstring) option" where
  "take_escapes 0 s = Some ([], s)"
| "take_escapes (Suc n) (p # h # l # s) =
     (if p \<noteq> PERCENT then None
      else (case hex_octet h l of
              None \<Rightarrow> None
            | Some b \<Rightarrow>
                (case take_escapes n s of
                   None \<Rightarrow> None
                 | Some (bs, s') \<Rightarrow> Some (b # bs, s'))))"
| "take_escapes (Suc n) s = None"

definition is_continuation :: "nat \<Rightarrow> bool" where
  "is_continuation b \<longleftrightarrow> 0x80 \<le> b \<and> b < 0xC0"

text \<open>
  The code point of a well-formed UTF-8 sequence of two to four octets: continuation
  octets are \<open>10xxxxxx\<close>, the encoding is the shortest one, and the value is neither a
  surrogate nor above \<open>0x10FFFF\<close>.
\<close>

fun utf8_code_point :: "nat list \<Rightarrow> nat option" where
  "utf8_code_point [b0, b1] =
     (let v = (b0 mod 0x20) * 0x40 + b1 mod 0x40
      in if is_continuation b1 \<and> 0x80 \<le> v then Some v else None)"
| "utf8_code_point [b0, b1, b2] =
     (let v = (b0 mod 0x10) * 0x1000 + (b1 mod 0x40) * 0x40 + b2 mod 0x40
      in if is_continuation b1 \<and> is_continuation b2 \<and> 0x800 \<le> v
            \<and> \<not> (0xD800 \<le> v \<and> v \<le> 0xDFFF)
         then Some v else None)"
| "utf8_code_point [b0, b1, b2, b3] =
     (let v = (b0 mod 0x08) * 0x40000 + (b1 mod 0x40) * 0x1000 + (b2 mod 0x40) * 0x40
              + b3 mod 0x40
      in if is_continuation b1 \<and> is_continuation b2 \<and> is_continuation b3
            \<and> 0x10000 \<le> v \<and> v \<le> 0x10FFFF
         then Some v else None)"
| "utf8_code_point bs = None"

definition utf16_encode :: "nat \<Rightarrow> jsstring" where
  "utf16_encode v =
     (if v < 0x10000 then [of_nat v]
      else [of_nat (0xD800 + (v - 0x10000) div 0x400),
            of_nat (0xDC00 + (v - 0x10000) mod 0x400)])"

function decodeURIComponent :: "jsstring \<Rightarrow> jsstring option" where
  "decodeURIComponent [] = Some []"
| "decodeURIComponent (c # cs) =
     (if c \<noteq> PERCENT then map_option ((#) c) (decodeURIComponent cs)
      else (case cs of
              h # l # rest \<Rightarrow>
                (case hex_octet h l of
                   None \<Rightarrow> None
                 | Some b \<Rightarrow>
                     (let n = leading_ones b
                      in if n = 0 then map_option ((#) (of_nat b)) (decodeURIComponent rest)
                         else if n = 1 \<or> 4 < n then None
                         else (case take_escapes (n - 1) rest of
                                 None \<Rightarrow> None
                               | Some (bs, rest') \<Rightarrow>
                                   (case utf8_code_point (b # bs) of
                                      None \<Rightarrow> None
                                    | Some v \<Rightarrow>
                                        map_option ((@) (utf16_encode v))
                                          (decodeURIComponent rest')))))
            | _ \<Rightarrow> None))"
  by pat_completeness auto
termination
proof (relation "measure length", goal_cases)
  case 1
  show ?case by simp
next
  case (2 c cs)
  show ?case by simp
next
  case (3 c cs h t l rest)
  then show ?case by simp
next
  case (4 c cs h t l rest b n r bs rest')
  have shorter: "take_escapes k s = Some (os, s') \<Longrightarrow> length s' \<le> length s" for k s os s'
  proof (induction k s arbitrary: os s' rule: take_escapes.induct)
    case (2 k p h l s)
    then show ?case
      by (auto split: if_splits option.splits) fastforce
  qed simp_all
  from 4 have "length rest' \<le> length rest"
    using shorter [of "n - 1" rest bs rest'] by simp
  with 4 show ?case by simp
qed

section \<open>Node's \<open>path\<close> module (POSIX)\<close>

text \<open>
  \<open>path.resolve\<close> walks its arguments from the last to the first, and then the working
  directory, prepending each non-empty one until an absolute one has been prepended. The
  result is normalised: empty and \<open>.\<close> segments are dropped and \<open>..\<close> removes the segment
  before it; above the root of an absolute path \<open>..\<close> is dropped.
\<close>

fun resolve_loop :: "jsstring list \<Rightarrow> jsstring \<Rightarrow> jsstring \<times> bool" where
  "resolve_loop [] resolvedPath = (resolvedPath, False)"
| "resolve_loop ([] # ps) resolvedPath = resolve_loop ps resolvedPath"
| "resolve_loop ((c # cs) # ps) resolvedPath =
     (if c = SLASH then ((c # cs) @ SLASH # resolvedPath, True)
      else resolve_loop ps ((c # cs) @ SLASH # resolvedPath))"

text \<open>
  \<open>normalizeString\<close>, on the segments between separators; \<open>res\<close> holds the segments kept
  so far, the last one first.
\<close>

fun normalize_segments :: "bool \<Rightarrow> jsstring list \<Rightarrow> jsstring list \<Rightarrow> jsstring list" where
  "normalize_segments allowAboveRoot res [] = rev res"
| "normalize_segments allowAboveRoot res (s # ss) =
     (if s = [] \<or> s = [DOT] then normalize_segments allowAboveRoot res ss
      else if s = [DOT, DOT] then
        (case res of
           [] \<Rightarrow> normalize_segments allowAboveRoot (if allowAboveRoot then [s] else []) ss
         | t # ts \<Rightarrow>
             if allowAboveRoot \<and> t = [DOT, DOT]
             then normalize_segments allowAboveRoot (s # res) ss
             else normalize_segments allowAboveRoot ts ss)
      else normalize_segments allowAboveRoot (s # res) ss)"

fun join_segments :: "jsstring list \<Rightarrow> jsstring" where
  "join_segments [] = []"
| "join_segments [s] = s"
| "join_segments (s # t # ss) = s @ SLASH # join_segments (t # ss)"

definition normalizeString :: "jsstring \<Rightarrow> bool \<Rightarrow> jsstring" where
  "normalizeString p allowAboveRoot =
     join_segments (normalize_segments allowAboveRoot [] (split_on SLASH p))"

text \<open>
  A segment that normalisation keeps as it is: not empty, not \<open>.\<close> or \<open>..\<close>, and free of
  separators.
\<close>

definition regular :: "jsstring \<Rightarrow> bool" where
  "regular s \<longleftrightarrow> s \<noteq> [] \<and> s \<noteq> [DOT] \<and> s \<noteq> [DOT, DOT] \<and> SLASH \<notin> set s"

definition path_resolve :: "jsstring \<Rightarrow> jsstring list \<Rightarrow> jsstring" where
  "path_resolve cwd args =
     (case resolve_loop (rev args @ [cwd]) [] of
        (resolvedPath, resolvedAbsolute) \<Rightarrow>
          (let n = normalizeString resolvedPath (\<not> resolvedAbsolute)
           in if resolvedAbsolute then SLASH # n
              else if n \<noteq> [] then n else [DOT]))"

text \<open>
  \<open>path.dirname\<close>: the path without its last segment and the separators after it; the
  scan stops before index 0.
\<close>

definition path_dirname :: "jsstring \<Rightarrow> jsstring" where
  "path_dirname p =
     (case p of
        [] \<Rightarrow> [DOT]
      | c # cs \<Rightarrow>
          (let e = length (dropWhile (\<lambda>x. x \<noteq> SLASH) (dropWhile (\<lambda>x. x = SLASH) (rev cs)))
           in if e = 0 then (if c = SLASH then [SLASH] else [DOT])
              else if c = SLASH \<and> e = 1 then [SLASH, SLASH]
              else take e p))"

text \<open>
  \<open>path.extname\<close>: from the last \<open>.\<close> of the last segment to its end; empty when that
  segment has no \<open>.\<close>, starts with its only \<open>.\<close>, or is \<open>..\<close>.
\<close>

definition last_segment :: "jsstring \<Rightarrow> jsstring" where
  "last_segment p =
     rev (takeWhile (\<lambda>x. x \<noteq> SLASH) (dropWhile (\<lambda>x. x = SLASH) (rev p)))"

definition path_extname :: "jsstring \<Rightarrow> jsstring" where
  "path_extname p =
     (let b = last_segment p;
          e = rev (takeWhile (\<lambda>x. x \<noteq> DOT) (rev b))
      in if DOT \<notin> set b \<or> Suc (length e) = length b \<or> b = [DOT, DOT] then []
         else DOT # e)"

section \<open>The resolver\<close>

text \<open>
  The served root is \<open>path.resolve(process.cwd(), "public")\<close>; the working directory
  \<open>cwd\<close> of the process is a parameter of the model.
\<close>

definition absolute :: "jsstring \<Rightarrow> bool" where
  "absolute p \<longleftrightarrow> (case p of [] \<Rightarrow> False | c # cs \<Rightarrow> c = SLASH)"

definition PUBLIC_DIR :: "jsstring \<Rightarrow> jsstring" where
  "PUBLIC_DIR cwd = path_resolve cwd [cwd, js ''public'']"

record resolved =
  absPath :: "jsstring option"
  status :: "nat option"

text \<open>
  Both handlers start with \<open>(rawUrl.split("?")[0] ?? "/").trim()\<close>; the model names it.
\<close>

definition pathname_of :: "jsstring \<Rightarrow> jsstring" where
  "pathname_of rawUrl =
     trim (case at_index (split_on QUESTION rawUrl) 0 of
             None \<Rightarrow> js ''/''
           | Some s \<Rightarrow> s)"

definition parseAndResolvePath :: "jsstring \<Rightarrow> jsstring \<Rightarrow> resolved" where
  "parseAndResolvePath cwd rawUrl =
     (let pathname = pathname_of rawUrl
      in case decodeURIComponent pathname of
           None \<Rightarrow> \<lparr>absPath = None, status = Some 400\<rparr>
         | Some decodedPath \<Rightarrow>
             (let normalized = (if decodedPath = js ''/'' then js ''/index.html''
                                else decodedPath);
                  p = path_resolve cwd [PUBLIC_DIR cwd, DOT # normalized]
              in if \<not> startsWith p (PUBLIC_DIR cwd)
                 then \<lparr>absPath = None, status = Some 403\<rparr>
                 else \<lparr>absPath = Some p, status = None\<rparr>))"

text \<open>
  The containment the specification asks for: a path lies within the root when it is the
  root or continues it after a separator.
\<close>

definition within_root :: "jsstring \<Rightarrow> jsstring \<Rightarrow> bool" where
  "within_root root p \<longleftrightarrow> p = root \<or> startsWith p (root @ [SLASH])"


section \<open>Responses\<close>

text \<open>
  \<open>Buffer.from(s, "utf8")\<close>: the UTF-8 encoding of a string; a surrogate pair is one code
  point and a lone surrogate is encoded as \<open>U+FFFD\<close>.
\<close>

definition utf8_octets :: "nat \<Rightarrow> buffer" where
  "utf8_octets v =
     (if v < 0x80 then [of_nat v]
      else if v < 0x800 then [of_nat (0xC0 + v div 0x40), of_nat (0x80 + v mod 0x40)]
      else if v < 0x10000 then
        [of_nat (0xE0 + v div 0x1000), of_nat (0x80 + v div 0x40 mod 0x40),
         of_nat (0x80 + v mod 0x40)]
      else
        [of_nat (0xF0 + v div 0x40000), of_nat (0x80 + v div 0x1000 mod 0x40),
         of_nat (0x80 + v div 0x40 mod 0x40), of_nat (0x80 + v mod 0x40)])"

definition high_surrogate :: "code_unit \<Rightarrow> bool" where
  "high_surrogate c \<longleftrightarrow> 0xD800 \<le> c \<and> c \<le> 0xDBFF"

definition low_surrogate :: "code_unit \<Rightarrow> bool" where
  "low_surrogate c \<longleftrightarrow> 0xDC00 \<le> c \<and> c \<le> 0xDFFF"

definition scalar_value :: "code_unit \<Rightarrow> nat" where
  "scalar_value c = (if high_surrogate c \<or> low_surrogate c then 0xFFFD else unat c)"

fun utf8_encode :: "jsstring \<Rightarrow> buffer" where
  "utf8_encode [] = []"
| "utf8_encode [c] = utf8_octets (scalar_value c)"
| "utf8_encode (c # d # cs) =
     (if high_surrogate c \<and> low_surrogate d
      then utf8_octets (0x10000 + (unat c - 0xD800) * 0x400 + (unat d - 0xDC00))
           @ utf8_encode cs
      else utf8_octets (scalar_value c) @ utf8_encode (d # cs))"

text \<open>\<open>String(n)\<close> for a length: its decimal digits.\<close>

fun decimal :: "nat \<Rightarrow> jsstring" where
  "decimal n =
     (if n < 10 then [of_nat (0x30 + n)]
      else decimal (n div 10) @ [of_nat (0x30 + n mod 10)])"

declare decimal.simps [simp del]

text \<open>
  \<open>toLowerCase\<close> on the letters \<open>A\<close> to \<open>Z\<close>. The full case mapping of ECMAScript also
  changes code units beyond ASCII, none of them into a string containing only letters of
  the suffixes that \<open>guessContentType\<close> compares with, so the lookup below is the same.
\<close>

definition toLowerCase :: "jsstring \<Rightarrow> jsstring" where
  "toLowerCase s = map (\<lambda>c. if 0x41 \<le> c \<and> c \<le> 0x5A then c + 0x20 else c) s"

definition guessContentType :: "jsstring \<Rightarrow> jsstring" where
  "guessContentType filePath =
     (let ext = toLowerCase (path_extname filePath)
      in if ext = js ''.html'' then js ''text/html; charset=utf-8''
         else if ext = js ''.css'' then js ''text/css; charset=utf-8''
         else if ext = js ''.js'' then js ''text/javascript; charset=utf-8''
         else if ext = js ''.json'' then js ''application/json; charset=utf-8''
         else if ext = js ''.txt'' then js ''text/plain; charset=utf-8''
         else if ext = js ''.png'' then js ''image/png''
         else if ext = js ''.jpg'' \<or> ext = js ''.jpeg'' then js ''image/jpeg''
         else if ext = js ''.gif'' then js ''image/gif''
         else if ext = js ''.svg'' then js ''image/svg+xml''
         else js ''application/octet-stream'')"

text \<open>
  The body argument of \<open>send\<close> is a \<open>Buffer\<close>, a string, or \<open>undefined\<close> (\<open>None\<close>).
\<close>

datatype body_arg = BufferBody buffer | StringBody jsstring

definition toBuffer :: "body_arg option \<Rightarrow> buffer" where
  "toBuffer content =
     (case content of
        None \<Rightarrow> []
      | Some (BufferBody b) \<Rightarrow> b
      | Some (StringBody s) \<Rightarrow> utf8_encode s)"

text \<open>
  A response is what the handler hands to the HTTP library: the status code, the headers
  it has set and the bytes given to \<open>res.end\<close>. \<open>res.setHeader\<close> replaces a header of
  the same name whatever its case, so the response keeps header names in lower case
  (names are ASCII).
\<close>

type_synonym header_list = "(jsstring \<times> jsstring) list"

record response =
  statusCode :: nat
  headers :: header_list
  body :: buffer

definition setHeader :: "jsstring \<Rightarrow> jsstring \<Rightarrow> header_list \<Rightarrow> header_list" where
  "setHeader k v hs = AList.update (toLowerCase k) v hs"

definition getHeader :: "response \<Rightarrow> jsstring \<Rightarrow> jsstring option" where
  "getHeader r k = map_of (headers r) (toLowerCase k)"

text \<open>
  \<open>send\<close> of the full server. \<open>now\<close> is \<open>new Date().toUTCString()\<close> at the call. The
  \<open>headers\<close> object is an association list in insertion order: \<open>k in headers\<close> is
  \<open>map_of headers k \<noteq> None\<close> and \<open>Object.entries\<close> is the list itself.
\<close>

definition send :: "jsstring \<Rightarrow> nat \<Rightarrow> header_list \<Rightarrow> body_arg option \<Rightarrow> response" where
  "send now code hdrs content =
     (let buf = toBuffer content;
          res0 = setHeader (js ''Connection'') (js ''close'') (setHeader (js ''Date'') now []);
          hdrs1 = (if map_of hdrs (js ''Content-Length'') = None
                   then AList.update (js ''Content-Length'') (decimal (length buf)) hdrs
                   else hdrs);
          hdrs2 = (if map_of hdrs1 (js ''Content-Type'') = None
                   then AList.update (js ''Content-Type'') (js ''text/plain; charset=utf-8'') hdrs1
                   else hdrs1)
      in \<lparr>statusCode = code,
          headers = fold (\<lambda>(k, v). setHeader k v) hdrs2 res0,
          body = buf\<rparr>)"

text \<open>
  \<open>send\<close> of the read-only server (\<open>src/index.ts\<close>): it sets \<open>Date\<close>, \<open>Connection\<close> and
  the caller's headers, and gives the body to \<open>res.end\<close>, which writes a string in UTF-8.
\<close>

definition send_index :: "jsstring \<Rightarrow> nat \<Rightarrow> header_list \<Rightarrow> body_arg option \<Rightarrow> response" where
  "send_index now code hdrs content =
     (let res0 = setHeader (js ''Connection'') (js ''close'') (setHeader (js ''Date'') now [])
      in \<lparr>statusCode = code,
          headers = fold (\<lambda>(k, v). setHeader k v) hdrs res0,
          body = (case content of
                    None \<Rightarrow> []
                  | Some (BufferBody b) \<Rightarrow> b
                  | Some (StringBody s) \<Rightarrow> utf8_encode s)\<rparr>)"

abbreviation text_plain :: header_list where
  "text_plain \<equiv> [(js ''Content-Type'', js ''text/plain; charset=utf-8'')]"

section \<open>The file system\<close>

text \<open>
  The file system maps absolute paths to regular files and directories; there are no
  symbolic links. Each call that reaches the operating system is logged. The operating
  system may fail any call with an error code of its choice (permissions, I/O errors, a
  path component that is not a directory, a concurrent change): this is the \<open>fault\<close>
  argument, \<open>None\<close> when the call runs on the map. A failed call leaves the map as it was.
  The callbacks of the source run one after the other, so one request is handled as a
  sequence of calls; requests that interleave are not modelled.
\<close>

datatype node = File buffer | Directory

datatype fs_call =
    Stat jsstring
  | ReadFile jsstring
  | WriteFile jsstring buffer
  | Unlink jsstring

record world =
  files :: "jsstring \<rightharpoonup> node"
  calls :: "fs_call list"

type_synonym fault = "jsstring option"

record stats =
  isFile :: bool
  isDirectory :: bool

definition called :: "fs_call \<Rightarrow> world \<Rightarrow> world" where
  "called c w = w\<lparr>calls := calls w @ [c]\<rparr>"

text \<open>
  What a call reports to its callback: the fault if the operating system fails the call,
  otherwise what the map says. \<open>fs.writeFile\<close> creates or truncates the file; it creates
  no directory, so the directory of the path has to exist.
\<close>

definition stat_answer :: "fault \<Rightarrow> world \<Rightarrow> jsstring \<Rightarrow> jsstring + stats" where
  "stat_answer flt w p =
     (case flt of
        Some e \<Rightarrow> Inl e
      | None \<Rightarrow>
          (case files w p of
             None \<Rightarrow> Inl (js ''ENOENT'')
           | Some (File d) \<Rightarrow> Inr \<lparr>isFile = True, isDirectory = False\<rparr>
           | Some Directory \<Rightarrow> Inr \<lparr>isFile = False, isDirectory = True\<rparr>))"

definition read_answer :: "fault \<Rightarrow> world \<Rightarrow> jsstring \<Rightarrow> jsstring + buffer" where
  "read_answer flt w p =
     (case flt of
        Some e \<Rightarrow> Inl e
      | None \<Rightarrow>
          (case files w p of
             None \<Rightarrow> Inl (js ''ENOENT'')
           | Some (File d) \<Rightarrow> Inr d
           | Some Directory \<Rightarrow> Inl (js ''EISDIR'')))"

definition write_error :: "fault \<Rightarrow> world \<Rightarrow> jsstring \<Rightarrow> jsstring option" where
  "write_error flt w p =
     (case flt of
        Some e \<Rightarrow> Some e
      | None \<Rightarrow>
          (case files w p of
             Some Directory \<Rightarrow> Some (js ''EISDIR'')
           | _ \<Rightarrow>
               (case files w (path_dirname p) of
                  None \<Rightarrow> Some (js ''ENOENT'')
                | Some (File x) \<Rightarrow> Some (js ''ENOTDIR'')
                | Some Directory \<Rightarrow> None)))"

text \<open>
  Of the errors of these calls the handlers read the code only after \<open>unlink\<close>; after the
  others they ask whether there was an error. So the answer of \<open>unlink\<close> tells a path that
  goes through a regular file (\<open>ENOTDIR\<close>) from a missing one (\<open>ENOENT\<close>). The
  directories a path goes through are its prefixes before each separator.
\<close>

fun ancestors_from :: "jsstring \<Rightarrow> jsstring \<Rightarrow> jsstring list" where
  "ancestors_from pre [] = []"
| "ancestors_from pre (c # cs) =
     (if c = SLASH \<and> pre \<noteq> [] then [pre] else []) @ ancestors_from (pre @ [c]) cs"

definition ancestors :: "jsstring \<Rightarrow> jsstring list" where
  "ancestors p = ancestors_from [] p"

definition under_file :: "world \<Rightarrow> jsstring \<Rightarrow> bool" where
  "under_file w p \<longleftrightarrow>
     list_ex (\<lambda>a. case files w a of Some (File d) \<Rightarrow> True | _ \<Rightarrow> False) (ancestors p)"

definition unlink_error :: "fault \<Rightarrow> world \<Rightarrow> jsstring \<Rightarrow> jsstring option" where
  "unlink_error flt w p =
     (case flt of
        Some e \<Rightarrow> Some e
      | None \<Rightarrow>
          if under_file w p then Some (js ''ENOTDIR'')
          else (case files w p of
                  None \<Rightarrow> Some (js ''ENOENT'')
                | Some Directory \<Rightarrow> Some (js ''EISDIR'')
                | Some (File d) \<Rightarrow> None))"

text \<open>
  Every function of Node's \<open>fs\<close> validates its path before anything else: a string with a
  NUL code unit makes it throw \<open>ERR_INVALID_ARG_VALUE\<close> at once, without calling back and
  without a call to the operating system. The functions below return \<open>None\<close> then, and
  otherwise what the callback is given and the file system after the call.
\<close>

definition valid_path :: "jsstring \<Rightarrow> bool" where
  "valid_path p \<longleftrightarrow> 0 \<notin> set p"

definition fs_stat :: "fault \<Rightarrow> jsstring \<Rightarrow> world \<Rightarrow> ((jsstring + stats) \<times> world) option" where
  "fs_stat flt p w =
     (if \<not> valid_path p then None else Some (stat_answer flt w p, called (Stat p) w))"

definition fs_readFile :: "fault \<Rightarrow> jsstring \<Rightarrow> world \<Rightarrow> ((jsstring + buffer) \<times> world) option" where
  "fs_readFile flt p w =
     (if \<not> valid_path p then None else Some (read_answer flt w p, called (ReadFile p) w))"

definition fs_writeFile ::
    "fault \<Rightarrow> jsstring \<Rightarrow> buffer \<Rightarrow> world \<Rightarrow> (jsstring option \<times> world) option" where
  "fs_writeFile flt p d w =
     (if \<not> valid_path p then None
      else Some (case write_error flt w p of
                   Some e \<Rightarrow> (Some e, called (WriteFile p d) w)
                 | None \<Rightarrow>
                     (None, (called (WriteFile p d) w)\<lparr>files := (files w)(p \<mapsto> File d)\<rparr>)))"

definition fs_unlink :: "fault \<Rightarrow> jsstring \<Rightarrow> world \<Rightarrow> (jsstring option \<times> world) option" where
  "fs_unlink flt p w =
     (if \<not> valid_path p then None
      else Some (case unlink_error flt w p of
                   Some e \<Rightarrow> (Some e, called (Unlink p) w)
                 | None \<Rightarrow> (None, (called (Unlink p) w)\<lparr>files := (files w)(p := None)\<rparr>)))"

text \<open>The faults of one request, one for each call the handlers make.\<close>

record faults =
  on_stat_parent :: fault
  on_stat :: fault
  on_readFile :: fault
  on_writeFile :: fault
  on_unlink :: fault

section \<open>Requests and handlers\<close>

text \<open>
  A request has its method and URL (both optional in Node's type) and a body stream: the
  chunks of its \<open>data\<close> events, ended by \<open>end\<close> or by \<open>error\<close>.
\<close>

record request =
  req_method :: "jsstring option"
  req_url :: "jsstring option"
  chunks :: "buffer list"
  stream_error :: bool

text \<open>\<open>req.method ?? ""\<close> and \<open>req.url ?? "/"\<close>, the first two lines of both handlers.\<close>

definition request_method :: "request \<Rightarrow> jsstring" where
  "request_method req = (case req_method req of None \<Rightarrow> [] | Some m \<Rightarrow> m)"

definition request_url :: "request \<Rightarrow> jsstring" where
  "request_url req = (case req_url req of None \<Rightarrow> js ''/'' | Some u \<Rightarrow> u)"

text \<open>
  \<open>readRequestBody\<close> calls back with an error, or with no error and the concatenated
  chunks.
\<close>

definition readRequestBody :: "request \<Rightarrow> bool \<times> buffer option" where
  "readRequestBody req =
     (if stream_error req then (True, None) else (False, Some (concat (chunks req))))"

text \<open>
  A handler gives the response it sends and the file system it leaves. The source
  catches no exception of an \<open>fs\<close> call, so when a call throws, the exception leaves the
  handler and nothing is sent: the response is \<open>None\<close>.
\<close>

type_synonym handled = "response option \<times> world"

definition handleGet :: "jsstring \<Rightarrow> faults \<Rightarrow> jsstring \<Rightarrow> world \<Rightarrow> handled" where
  "handleGet now flt p w =
     (case fs_stat (on_stat flt) p w of
        None \<Rightarrow> (None, w)
      | Some (Inl err, w1) \<Rightarrow>
          (Some (send now 404 text_plain (Some (StringBody (js ''Not Found\<newline>'')))), w1)
      | Some (Inr st, w1) \<Rightarrow>
          if \<not> isFile st
          then (Some (send now 404 text_plain (Some (StringBody (js ''Not Found\<newline>'')))), w1)
          else (case fs_readFile (on_readFile flt) p w1 of
                  None \<Rightarrow> (None, w1)
                | Some (Inl err2, w2) \<Rightarrow>
                    (Some (send now 500 text_plain
                             (Some (StringBody (js ''Internal Server Error\<newline>'')))), w2)
                | Some (Inr data, w2) \<Rightarrow>
                    (Some (send now 200
                             [(js ''Content-Type'', guessContentType p),
                              (js ''Content-Length'', decimal (length data))]
                             (Some (BufferBody data))), w2)))"

definition handlePut :: "jsstring \<Rightarrow> faults \<Rightarrow> jsstring \<Rightarrow> request \<Rightarrow> world \<Rightarrow> handled" where
  "handlePut now flt p req w =
     (let parent = path_dirname p
      in case fs_stat (on_stat_parent flt) parent w of
           None \<Rightarrow> (None, w)
         | Some (Inl parentErr, w1) \<Rightarrow>
             (Some (send now 404 text_plain (Some (StringBody (js ''Not Found\<newline>'')))), w1)
         | Some (Inr parentSt, w1) \<Rightarrow>
             if \<not> isDirectory parentSt
             then (Some (send now 404 text_plain (Some (StringBody (js ''Not Found\<newline>'')))),
                   w1)
             else (case fs_stat (on_stat flt) p w1 of
                     None \<Rightarrow> (None, w1)
                   | Some (r, w2) \<Rightarrow>
                       (let existed = (case r of Inl statErr \<Rightarrow> False | Inr st \<Rightarrow> isFile st)
                        in case readRequestBody req of
                             (bodyErr, b) \<Rightarrow>
                               (case (if bodyErr then None else b) of
                                  None \<Rightarrow>
                                    (Some (send now 500 text_plain
                                             (Some (StringBody
                                                (js ''Internal Server Error\<newline>'')))), w2)
                                | Some data \<Rightarrow>
                                    (case fs_writeFile (on_writeFile flt) p data w2 of
                                       None \<Rightarrow> (None, w2)
                                     | Some (Some writeErr, w3) \<Rightarrow>
                                         (Some (send now 500 text_plain
                                                  (Some (StringBody
                                                     (js ''Internal Server Error\<newline>'')))),
                                          w3)
                                     | Some (None, w3) \<Rightarrow>
                                         (Some (send now (if existed then 200 else 201)
                                                  text_plain (Some (StringBody []))), w3))))))"

definition handleDelete :: "jsstring \<Rightarrow> faults \<Rightarrow> jsstring \<Rightarrow> world \<Rightarrow> handled" where
  "handleDelete now flt p w =
     (case fs_unlink (on_unlink flt) p w of
        None \<Rightarrow> (None, w)
      | Some (Some code, w1) \<Rightarrow>
          if code = js ''ENOENT''
          then (Some (send now 404 text_plain (Some (StringBody (js ''Not Found\<newline>'')))), w1)
          else (Some (send now 500 text_plain
                        (Some (StringBody (js ''Internal Server Error\<newline>'')))), w1)
      | Some (None, w1) \<Rightarrow>
          (Some (send now 204
                   [(js ''Content-Type'', js ''text/plain; charset=utf-8''),
                    (js ''Content-Length'', js ''0'')]
                   None), w1))"

text \<open>\<open>!parsed.absPath\<close>: true of \<open>undefined\<close> and of the empty string.\<close>

definition falsy :: "jsstring option \<Rightarrow> bool" where
  "falsy v \<longleftrightarrow> (case v of None \<Rightarrow> True | Some s \<Rightarrow> s = [])"

text \<open>
  The handler of the full server. After the two status tests it tests \<open>!parsed.absPath\<close>,
  that is \<open>falsy (absPath parsed)\<close>, written here as the two cases of the option so that
  the path is at hand afterwards.
\<close>

definition handler :: "jsstring \<Rightarrow> jsstring \<Rightarrow> faults \<Rightarrow> request \<Rightarrow> world \<Rightarrow> handled" where
  "handler cwd now flt req w =
     (let meth = request_method req;
          rawUrl = request_url req;
          parsed = parseAndResolvePath cwd rawUrl
      in if status parsed = Some 400
         then (Some (send now 400 text_plain (Some (StringBody (js ''Bad Request\<newline>'')))), w)
         else if status parsed = Some 403
         then (Some (send now 403 text_plain (Some (StringBody (js ''Forbidden\<newline>'')))), w)
         else (case absPath parsed of
                 None \<Rightarrow>
                   (Some (send now 500 text_plain
                            (Some (StringBody (js ''Internal Server Error\<newline>'')))), w)
               | Some p \<Rightarrow>
                   if p = []
                   then (Some (send now 500 text_plain
                                 (Some (StringBody (js ''Internal Server Error\<newline>'')))), w)
                   else if meth = js ''GET'' then handleGet now flt p w
                   else if meth = js ''PUT'' then handlePut now flt p req w
                   else if meth = js ''DELETE'' then handleDelete now flt p w
                   else (Some (send now 405 text_plain
                                 (Some (StringBody (js ''Method Not Allowed\<newline>'')))), w)))"

text \<open>
  The handler of the read-only server (\<open>src/index.ts\<close>): the method is checked first,
  \<open>/\<close> is replaced before decoding, and the resolution is written in line.
\<close>

definition handler_index :: "jsstring \<Rightarrow> jsstring \<Rightarrow> faults \<Rightarrow> request \<Rightarrow> world \<Rightarrow> handled" where
  "handler_index cwd now flt req w =
     (let meth = request_method req;
          rawUrl = request_url req
      in if meth \<noteq> js ''GET''
         then (Some (send_index now 405 text_plain
                       (Some (StringBody (js ''Method Not Allowed\<newline>'')))), w)
         else
           (let pathname = pathname_of rawUrl;
                requestPath = (if pathname = js ''/'' then js ''/index.html'' else pathname)
            in case decodeURIComponent requestPath of
                 None \<Rightarrow>
                   (Some (send_index now 400 text_plain
                            (Some (StringBody (js ''Bad Request\<newline>'')))), w)
               | Some decodedPath \<Rightarrow>
                   (let p = path_resolve cwd [PUBLIC_DIR cwd, DOT # decodedPath]
                    in if \<not> startsWith p (PUBLIC_DIR cwd)
                       then (Some (send_index now 403 text_plain
                                     (Some (StringBody (js ''Forbidden\<newline>'')))), w)
                       else (case fs_stat (on_stat flt) p w of
                               None \<Rightarrow> (None, w)
                             | Some (Inl err, w1) \<Rightarrow>
                                 (Some (send_index now 404 text_plain
                                          (Some (StringBody (js ''Not Found\<newline>'')))), w1)
                             | Some (Inr st, w1) \<Rightarrow>
                                 if \<not> isFile st
                                 then (Some (send_index now 404 text_plain
                                               (Some (StringBody (js ''Not Found\<newline>'')))),
                                       w1)
                                 else (case fs_readFile (on_readFile flt) p w1 of
                                         None \<Rightarrow> (None, w1)
                                       | Some (Inl err2, w2) \<Rightarrow>
                                           (Some (send_index now 500 text_plain
                                                    (Some (StringBody
                                                       (js ''Internal Server Error\<newline>'')))),
                                            w2)
                                       | Some (Inr data, w2) \<Rightarrow>
                                           (Some (send_index now 200
                                                    [(js ''Content-Type'', guessContentType p),
                                                     (js ''Content-Length'',
                                                      decimal (length data))]
                                                    (Some (BufferBody data))), w2))))))"

section \<open>What the HTTP library emits\<close>



section \<open>Notions used in the statements\<close>

text \<open>The segments of the served root, for an absolute working directory.\<close>

definition root_segments :: "jsstring \<Rightarrow> jsstring list" where
  "root_segments cwd = normalize_segments False [] (split_on SLASH cwd) @ [js ''public'']"

text \<open>What was answered, if anything: the status, the body and a header of the response.\<close>

definition status_of :: "handled \<Rightarrow> nat option" where
  "status_of out = map_option statusCode (fst out)"

definition body_of :: "handled \<Rightarrow> buffer option" where
  "body_of out = map_option body (fst out)"

definition header_of :: "handled \<Rightarrow> jsstring \<Rightarrow> jsstring option" where
  "header_of out k = (case fst out of None \<Rightarrow> None | Some r \<Rightarrow> getHeader r k)"






text \<open>
  Concrete inputs for the examples: requests without a body, a clock reading, calls that
  the operating system does not fail, an empty file system, and the site of the
  specification's scenario, whose \<open>index.html\<close> holds \<open><h1>hi</h1>\<close>.
\<close>

definition example_request :: "string \<Rightarrow> string \<Rightarrow> request" where
  "example_request m u =
     \<lparr>req_method = Some (js m), req_url = Some (js u), chunks = [], stream_error = False\<rparr>"

definition example_now :: jsstring where
  "example_now = js ''Mon, 02 Nov 2026 12:00:00 GMT''"

definition no_faults :: faults where
  "no_faults = \<lparr>on_stat_parent = None, on_stat = None, on_readFile = None,
                 on_writeFile = None, on_unlink = None\<rparr>"

definition empty_world :: world where
  "empty_world = \<lparr>files = Map.empty, calls = []\<rparr>"

definition example_site :: world where
  "example_site =
     \<lparr>files = [js ''/srv/public'' \<mapsto> Directory,
               js ''/srv/public/index.html'' \<mapsto> File (utf8_encode (js ''<h1>hi</h1>''))],
      calls = []\<rparr>"

section \<open>Facts about splitting, joining and normalising\<close>

lemma split_on_nonempty: "split_on d s \<noteq> []"
  by (induction s) (auto split: list.splits)

lemma split_on_append: "split_on d (xs @ d # ys) = split_on d xs @ split_on d ys"
  by (induction xs) (auto split: list.splits simp: split_on_nonempty)

lemma split_on_snoc: "split_on d (xs @ [d]) = split_on d xs @ [[]]"
  using split_on_append [of d xs "[]"] by simp

lemma split_on_no_sep: "d \<notin> set s \<Longrightarrow> split_on d s = [s]"
  by (induction s) auto

lemma split_on_free: "s \<in> set (split_on d p) \<Longrightarrow> d \<notin> set s"
proof (induction p arbitrary: s)
  case Nil
  then show ?case by simp
next
  case (Cons c cs)
  then show ?case
    by (auto split: if_splits list.splits simp: split_on_nonempty)
qed

lemma join_segments_snoc: "ss \<noteq> [] \<Longrightarrow> join_segments (ss @ [s]) = join_segments ss @ SLASH # s"
  by (induction ss rule: join_segments.induct) auto

lemma join_segments_Cons: "ss \<noteq> [] \<Longrightarrow> join_segments (s # ss) = s @ SLASH # join_segments ss"
  by (cases ss) simp_all

lemma join_segments_last_append: "join_segments (ss @ [a @ b]) = join_segments (ss @ [a]) @ b"
  by (induction ss) (simp_all add: join_segments_Cons)

lemma split_join:
  "ss \<noteq> [] \<Longrightarrow> \<forall>s\<in>set ss. SLASH \<notin> set s \<Longrightarrow> split_on SLASH (join_segments ss) = ss"
proof (induction ss rule: join_segments.induct)
  case 1
  then show ?case by simp
next
  case (2 s)
  then show ?case by (simp add: split_on_no_sep)
next
  case (3 s t ss)
  then show ?case
    using split_on_append [of SLASH s "join_segments (t # ss)"]
    by (simp add: split_on_no_sep)
qed

lemma normalize_segments_append:
  "normalize_segments a res (xs @ ys) =
     normalize_segments a (rev (normalize_segments a res xs)) ys"
  by (induction xs arbitrary: res) (auto split: list.splits)

lemma normalize_segments_regular:
  "\<forall>s\<in>set ss. regular s \<Longrightarrow> normalize_segments a res ss = rev res @ ss"
  by (induction ss arbitrary: res) (auto simp: regular_def)

lemma normalize_segments_output:
  "\<forall>s\<in>set res. regular s \<Longrightarrow> \<forall>s\<in>set ss. SLASH \<notin> set s \<Longrightarrow>
     \<forall>s\<in>set (normalize_segments False res ss). regular s"
proof (induction ss arbitrary: res)
  case Nil
  then show ?case by simp
next
  case (Cons s ss)
  have rest: "\<forall>t\<in>set ss. SLASH \<notin> set t" using Cons.prems(2) by simp
  consider (skip) "s = [] \<or> s = [DOT]" | (up) "s = [DOT, DOT]" | (name) "regular s"
    using Cons.prems(2) by (auto simp: regular_def)
  then show ?case
  proof cases
    case skip
    then show ?thesis using Cons.IH [OF Cons.prems(1) rest] by auto
  next
    case up
    show ?thesis
    proof (cases res)
      case Nil
      then show ?thesis using up Cons.IH [of "[]"] rest by simp
    next
      case (Cons t ts)
      then have "\<forall>s\<in>set ts. regular s" using Cons.prems(1) by simp
      then show ?thesis using up Cons Cons.IH [of ts] rest by simp
    qed
  next
    case name
    then have "\<forall>t\<in>set (s # res). regular t" using Cons.prems(1) by simp
    then show ?thesis using name Cons.IH [of "s # res"] rest by (simp add: regular_def)
  qed
qed

lemma startsWith_append: "startsWith (p @ q) p"
  by (simp add: startsWith_def)


lemma last_segment_append:
  "s \<noteq> [] \<Longrightarrow> SLASH \<notin> set s \<Longrightarrow> last_segment (xs @ SLASH # s) = s"
proof -
  assume s: "s \<noteq> []" "SLASH \<notin> set s"
  then have "dropWhile (\<lambda>x. x = SLASH) (rev s @ SLASH # rev xs) = rev s @ SLASH # rev xs"
    by (cases "rev s") (auto simp: hd_rev last_in_set)
  moreover have "takeWhile (\<lambda>x. x \<noteq> SLASH) (rev s @ SLASH # rev xs) = rev s"
    using s(2) by (subst takeWhile_append2) auto
  ultimately show ?thesis by (simp add: last_segment_def)
qed

section \<open>Facts about decoding\<close>

lemma take_escapes_eval:
  "take_escapes 1 s = take_escapes (Suc 0) s"
  "take_escapes 2 s = take_escapes (Suc (Suc 0)) s"
  "take_escapes 3 s = take_escapes (Suc (Suc (Suc 0))) s"
  by (simp_all add: numeral_eq_Suc)

lemmas decode_eval = js_def hex_octet_def hex_digit_def leading_ones_def utf16_encode_def
  is_continuation_def take_escapes_eval

lemma decode_after_plain:
  "PERCENT \<notin> set xs \<Longrightarrow>
     decodeURIComponent (xs @ ys) = map_option ((@) xs) (decodeURIComponent ys)"
proof (induction xs)
  case Nil
  show ?case by (cases "decodeURIComponent ys") simp_all
next
  case (Cons c xs)
  then show ?case by (cases "decodeURIComponent ys") simp_all
qed

lemma decode_plain: "PERCENT \<notin> set s \<Longrightarrow> decodeURIComponent s = Some s"
  using decode_after_plain [of s "[]"] by simp

lemma decode_bad_digits:
  "hex_octet h l = None \<Longrightarrow> decodeURIComponent (PERCENT # h # l # ys) = None"
  by simp

lemma decode_cut_short:
  "decodeURIComponent [PERCENT] = None" "decodeURIComponent [PERCENT, h] = None"
  by simp_all

text \<open>
  A \<open>%\<close> that is not followed by two hexadecimal digits makes the decoding fail, wherever
  it first occurs.
\<close>

lemma malformed_escape_fails:
  assumes "PERCENT \<notin> set xs"
  shows "hex_octet h l = None \<Longrightarrow> decodeURIComponent (xs @ PERCENT # h # l # ys) = None"
    and "decodeURIComponent (xs @ [PERCENT]) = None"
    and "decodeURIComponent (xs @ [PERCENT, h]) = None"
  using decode_after_plain [OF assms] decode_bad_digits decode_cut_short by simp_all

section \<open>Facts about the served root and path resolution\<close>

lemmas path_eval = path_resolve_def normalizeString_def PUBLIC_DIR_def startsWith_def
  pathname_of_def trim_def is_js_space_def

lemma regular_public: "regular (js ''public'')"
  by (simp add: regular_def js_def)

lemma root_segments_regular: "\<forall>s\<in>set (root_segments cwd). regular s"
proof -
  have "\<forall>s\<in>set (normalize_segments False [] (split_on SLASH cwd)). regular s"
    by (rule normalize_segments_output) (auto dest: split_on_free)
  then show ?thesis by (simp add: root_segments_def regular_public)
qed

lemma root_segments_nonempty: "root_segments cwd \<noteq> []"
  by (simp add: root_segments_def)

lemma resolve_loop_absolute:
  "absolute p \<Longrightarrow> resolve_loop (p # ps) acc = (p @ SLASH # acc, True)"
  by (cases p) (auto simp: absolute_def)

lemma PUBLIC_DIR_segments:
  assumes "absolute cwd"
  shows "PUBLIC_DIR cwd = SLASH # join_segments (root_segments cwd)"
proof -
  have pub: "resolve_loop [js ''public'', cwd, cwd] [] = (cwd @ SLASH # js ''public'' @ [SLASH], True)"
    using resolve_loop_absolute [OF assms] by (simp add: js_def)
  have "split_on SLASH (cwd @ SLASH # js ''public'' @ [SLASH])
          = split_on SLASH cwd @ [js ''public'', []]"
    using split_on_append [of SLASH cwd "js ''public'' @ [SLASH]"]
      split_on_snoc [of SLASH "js ''public''"] split_on_no_sep [of SLASH "js ''public''"]
      regular_public
    by (simp add: regular_def)
  then have "normalize_segments False [] (split_on SLASH (cwd @ SLASH # js ''public'' @ [SLASH]))
          = root_segments cwd"
    using regular_public
    by (simp add: normalize_segments_append root_segments_def regular_def)
  with pub show ?thesis
    by (simp add: PUBLIC_DIR_def path_resolve_def normalizeString_def)
qed

lemma PUBLIC_DIR_absolute: "absolute cwd \<Longrightarrow> absolute (PUBLIC_DIR cwd)"
  by (simp add: PUBLIC_DIR_segments absolute_def)

lemma PUBLIC_DIR_snoc:
  "absolute cwd \<Longrightarrow> SLASH # join_segments (root_segments cwd @ [s]) = PUBLIC_DIR cwd @ SLASH # s"
  by (simp add: PUBLIC_DIR_segments join_segments_snoc root_segments_nonempty)

lemma split_root:
  assumes "absolute cwd"
  shows "split_on SLASH (PUBLIC_DIR cwd) = [] # root_segments cwd"
proof -
  have "\<forall>s\<in>set (root_segments cwd). SLASH \<notin> set s"
    using root_segments_regular by (auto simp: regular_def)
  then show ?thesis
    using split_join [OF root_segments_nonempty] by (simp add: PUBLIC_DIR_segments [OF assms])
qed

lemma resolve_under_root:
  assumes "absolute cwd"
  shows "path_resolve cwd [PUBLIC_DIR cwd, DOT # x] =
           SLASH # join_segments
             (normalize_segments False (rev (root_segments cwd)) (split_on SLASH (DOT # x)))"
proof -
  let ?root = "PUBLIC_DIR cwd"
  let ?whole = "?root @ SLASH # DOT # x @ [SLASH]"
  have loop: "resolve_loop [DOT # x, ?root, cwd] [] = (?whole, True)"
    using resolve_loop_absolute [OF PUBLIC_DIR_absolute [OF assms]] by simp
  have "split_on SLASH ?whole = ([] # root_segments cwd) @ split_on SLASH (DOT # x) @ [[]]"
    using split_on_append [of SLASH ?root "(DOT # x) @ [SLASH]"]
      split_on_snoc [of SLASH "DOT # x"] split_root [OF assms]
    by simp
  moreover have "normalize_segments False [] ([] # root_segments cwd) = root_segments cwd"
    using normalize_segments_regular [OF root_segments_regular, of False "[]"] by simp
  ultimately have norm: "normalize_segments False [] (split_on SLASH ?whole) =
      normalize_segments False (rev (root_segments cwd)) (split_on SLASH (DOT # x))"
    by (simp only: normalize_segments_append)
       (simp add: normalize_segments_append)
  have "path_resolve cwd [?root, DOT # x] =
          SLASH # join_segments (normalize_segments False [] (split_on SLASH ?whole))"
    unfolding path_resolve_def normalizeString_def using loop by simp
  then show ?thesis by (simp only: norm)
qed

lemma path_resolve_nonempty: "path_resolve cwd args \<noteq> []"
  by (simp add: path_resolve_def Let_def split: prod.splits)

lemma resolve_name:
  assumes "absolute cwd" and "regular s"
  shows "path_resolve cwd [PUBLIC_DIR cwd, DOT # SLASH # s] = PUBLIC_DIR cwd @ SLASH # s"
proof -
  have "split_on SLASH (DOT # SLASH # s) = [[DOT], s]"
    using assms(2) by (simp add: regular_def split_on_no_sep)
  then have "normalize_segments False (rev (root_segments cwd)) (split_on SLASH (DOT # SLASH # s))
               = root_segments cwd @ [s]"
    using assms(2) by (simp add: regular_def)
  then show ?thesis
    by (simp only: resolve_under_root [OF assms(1)] PUBLIC_DIR_snoc [OF assms(1)])
qed


lemma resolve_sibling:
  assumes "absolute cwd"
  shows "path_resolve cwd [PUBLIC_DIR cwd, js ''./../public-evil/x''] = PUBLIC_DIR cwd @ js ''-evil/x''"
proof -
  let ?S = "normalize_segments False [] (split_on SLASH cwd)"
  have "split_on SLASH (js ''./../public-evil/x'') = [[DOT], [DOT, DOT], js ''public-evil'', js ''x'']"
    by (simp add: js_def)
  then have "normalize_segments False (rev (root_segments cwd)) (split_on SLASH (js ''./../public-evil/x''))
               = ?S @ [js ''public-evil'', js ''x'']"
    by (simp add: root_segments_def js_def)
  moreover have "path_resolve cwd [PUBLIC_DIR cwd, js ''./../public-evil/x''] =
      SLASH # join_segments (normalize_segments False (rev (root_segments cwd))
                 (split_on SLASH (js ''./../public-evil/x'')))"
    using resolve_under_root [OF assms, of "js ''/../public-evil/x''"] by (simp add: js_def)
  moreover have "join_segments (?S @ [js ''public-evil'', js ''x''])
                   = join_segments (?S @ [js ''public'']) @ js ''-evil/x''"
  proof -
    have "join_segments ((?S @ [js ''public-evil'']) @ [js ''x''])
            = join_segments (?S @ [js ''public-evil'']) @ SLASH # js ''x''"
      by (rule join_segments_snoc) simp
    moreover have "join_segments (?S @ [js ''public'' @ js ''-evil''])
            = join_segments (?S @ [js ''public'']) @ js ''-evil''"
      by (rule join_segments_last_append)
    ultimately show ?thesis by (simp add: js_def)
  qed
  ultimately show ?thesis
    by (simp add: PUBLIC_DIR_segments [OF assms] root_segments_def)
qed

section \<open>The resolver on particular paths\<close>

lemma parse_bad_escape:
  "decodeURIComponent (pathname_of rawUrl) = None \<Longrightarrow>
     parseAndResolvePath cwd rawUrl = \<lparr>absPath = None, status = Some 400\<rparr>"
  by (simp add: parseAndResolvePath_def)

lemma parse_name:
  assumes "absolute cwd" and "decodeURIComponent (pathname_of rawUrl) = Some (SLASH # s)"
    and "regular s"
  shows "parseAndResolvePath cwd rawUrl =
           \<lparr>absPath = Some (PUBLIC_DIR cwd @ SLASH # s), status = None\<rparr>"
proof -
  have "SLASH # s \<noteq> js ''/''" using assms(3) by (simp add: regular_def js_def)
  then show ?thesis
    using assms(2) resolve_name [OF assms(1) assms(3)]
    by (simp add: parseAndResolvePath_def startsWith_append)
qed



lemma parse_sibling:
  assumes "absolute cwd"
  shows "parseAndResolvePath cwd (js ''/../public-evil/x'') =
           \<lparr>absPath = Some (PUBLIC_DIR cwd @ js ''-evil/x''), status = None\<rparr>"
proof -
  have "pathname_of (js ''/../public-evil/x'') = js ''/../public-evil/x''"
    by (simp add: pathname_of_def trim_def is_js_space_def js_def)
  moreover have "decodeURIComponent (js ''/../public-evil/x'') = Some (js ''/../public-evil/x'')"
    by (simp add: js_def)
  moreover have "js ''/../public-evil/x'' \<noteq> js ''/''" by (simp add: js_def)
  moreover have "DOT # js ''/../public-evil/x'' = js ''./../public-evil/x''" by (simp add: js_def)
  ultimately show ?thesis
    using resolve_sibling [OF assms]
    by (simp add: parseAndResolvePath_def startsWith_append)
qed

lemma not_within_root_sibling: "\<not> within_root root (root @ js ''-evil/x'')"
  by (simp add: within_root_def startsWith_def js_def)

lemma resolved_starts_with_root:
  "absPath (parseAndResolvePath cwd rawUrl) = Some p \<Longrightarrow> startsWith p (PUBLIC_DIR cwd)"
  by (auto simp: parseAndResolvePath_def Let_def split: option.splits if_splits)

lemma resolved_shape:
  "absPath (parseAndResolvePath cwd rawUrl) = Some p \<Longrightarrow>
     p \<noteq> [] \<and> status (parseAndResolvePath cwd rawUrl) = None"
  by (auto simp: parseAndResolvePath_def Let_def path_resolve_nonempty
      split: option.splits if_splits)

section \<open>Facts about responses\<close>


lemma send_statusCode: "statusCode (send now code hdrs content) = code"
  by (simp add: send_def Let_def)

lemma send_body: "body (send now code hdrs content) = toBuffer content"
  by (simp add: send_def Let_def)

lemma send_index_statusCode: "statusCode (send_index now code hdrs content) = code"
  by (simp add: send_index_def Let_def)


lemma send_typed_sized:
  "send now code [(js ''Content-Type'', t), (js ''Content-Length'', n)] content =
     \<lparr>statusCode = code,
      headers = [(js ''date'', now), (js ''connection'', js ''close''),
                 (js ''content-type'', t), (js ''content-length'', n)],
      body = toBuffer content\<rparr>"
  by (simp add: send_def setHeader_def toLowerCase_def js_def Let_def)











lemma guessContentType_foo_txt:
  "guessContentType (root @ js ''/foo.txt'') = js ''text/plain; charset=utf-8''"
proof -
  have "last_segment (root @ SLASH # js ''foo.txt'') = js ''foo.txt''"
    by (rule last_segment_append) (simp_all add: js_def)
  then have "last_segment (root @ js ''/foo.txt'') = js ''foo.txt''"
    by (simp add: js_def)
  then have "path_extname (root @ js ''/foo.txt'') = js ''.txt''"
    by (simp add: path_extname_def js_def)
  then show ?thesis
    by (simp add: guessContentType_def toLowerCase_def js_def)
qed

section \<open>Facts about the file system calls and the handlers\<close>

lemmas request_eval = example_request_def request_method_def request_url_def


lemma files_called: "files (called c w) = files w"
  by (simp add: called_def)

lemma calls_called: "calls (called c w) = calls w @ [c]"
  by (simp add: called_def)

lemma answers_called:
  "stat_answer f (called c w) p = stat_answer f w p"
  "read_answer f (called c w) p = read_answer f w p"
  "write_error f (called c w) p = write_error f w p"
  "unlink_error f (called c w) p = unlink_error f w p"
  by (simp_all add: stat_answer_def read_answer_def write_error_def unlink_error_def under_file_def
      files_called cong: option.case_cong node.case_cong)

lemma stat_answer_directory:
  "(\<exists>st. stat_answer f w p = Inr st \<and> isDirectory st) \<longleftrightarrow> f = None \<and> files w p = Some Directory"
  by (auto simp: stat_answer_def split: option.splits node.splits)

lemma stat_answer_file:
  "stat_answer None w p = Inr st \<Longrightarrow> isFile st \<longleftrightarrow> (\<exists>d. files w p = Some (File d))"
  by (auto simp: stat_answer_def split: option.splits node.splits)

lemma write_error_ok:
  "write_error f w p = None \<longleftrightarrow>
     f = None \<and> files w p \<noteq> Some Directory \<and> files w (path_dirname p) = Some Directory"
  by (auto simp: write_error_def split: option.splits node.splits)

lemma unlink_error_cases:
  "unlink_error None w p = None \<longleftrightarrow> \<not> under_file w p \<and> (\<exists>d. files w p = Some (File d))"
  "\<not> under_file w p \<Longrightarrow> files w p = None \<Longrightarrow> unlink_error None w p = Some (js ''ENOENT'')"
  "under_file w p \<Longrightarrow> unlink_error None w p = Some (js ''ENOTDIR'')"
  by (auto simp: unlink_error_def split: option.splits node.splits)

lemma ancestors_from_shorter:
  "a \<in> set (ancestors_from pre s) \<Longrightarrow> length a < length pre + length s"
  by (induction s arbitrary: pre) (fastforce split: if_splits)+

lemma not_own_ancestor: "p \<notin> set (ancestors p)"
  using ancestors_from_shorter [of p "[]" p] by (auto simp: ancestors_def)

lemma under_file_update:
  assumes "files w' = (files w)(p := x)"
  shows "under_file w' p = under_file w p"
proof -
  have "files w' a = files w a" if "a \<in> set (ancestors p)" for a
    using that not_own_ancestor [of p] assms by auto
  then show ?thesis
    by (auto simp: under_file_def list_ex_iff)
qed

lemma valid_dirname: "valid_path p \<Longrightarrow> valid_path (path_dirname p)"
proof (cases p)
  case Nil
  then show ?thesis by (simp add: path_dirname_def valid_path_def)
next
  case (Cons c cs)
  assume valid: "valid_path p"
  define e where "e = length (dropWhile (\<lambda>x. x \<noteq> SLASH) (dropWhile (\<lambda>x. x = SLASH) (rev cs)))"
  have shape: "path_dirname p =
      (if e = 0 then (if c = SLASH then [SLASH] else [DOT])
       else if c = SLASH \<and> e = 1 then [SLASH, SLASH] else take e p)"
    unfolding path_dirname_def Cons e_def by (simp only: list.case Let_def)
  have "0 \<notin> set (take e p)"
    using valid by (auto simp: valid_path_def dest: in_set_takeD)
  then show ?thesis
    unfolding shape valid_path_def by (simp split: if_splits)
qed

lemma handler_dispatch:
  assumes "absPath (parseAndResolvePath cwd (request_url req)) = Some p"
  shows "request_method req = js ''GET'' \<Longrightarrow> handler cwd now flt req w = handleGet now flt p w"
    and "request_method req = js ''PUT'' \<Longrightarrow> handler cwd now flt req w = handlePut now flt p req w"
    and "request_method req = js ''DELETE'' \<Longrightarrow>
           handler cwd now flt req w = handleDelete now flt p w"
proof -
  have distinct: "js ''PUT'' \<noteq> js ''GET''" "js ''DELETE'' \<noteq> js ''GET''" "js ''DELETE'' \<noteq> js ''PUT''"
    by (simp_all add: js_def)
  note shape = resolved_shape [OF assms]
  show "request_method req = js ''GET'' \<Longrightarrow> handler cwd now flt req w = handleGet now flt p w"
    using shape assms by (simp add: handler_def Let_def)
  show "request_method req = js ''PUT'' \<Longrightarrow> handler cwd now flt req w = handlePut now flt p req w"
    using shape assms distinct by (simp add: handler_def Let_def)
  show "request_method req = js ''DELETE'' \<Longrightarrow>
           handler cwd now flt req w = handleDelete now flt p w"
    using shape assms distinct by (simp add: handler_def Let_def)
qed

lemma handler_unsupported:
  assumes "request_method req \<noteq> js ''GET''" and "request_method req \<noteq> js ''PUT''"
    and "request_method req \<noteq> js ''DELETE''"
  shows "handler cwd now flt req w =
           (let r = parseAndResolvePath cwd (request_url req)
            in if status r = Some 400
               then (Some (send now 400 text_plain (Some (StringBody (js ''Bad Request\<newline>'')))), w)
               else if status r = Some 403
               then (Some (send now 403 text_plain (Some (StringBody (js ''Forbidden\<newline>'')))), w)
               else (Some (send now 405 text_plain
                             (Some (StringBody (js ''Method Not Allowed\<newline>'')))), w))"
proof (cases "absPath (parseAndResolvePath cwd (request_url req))")
  case None
  then have "status (parseAndResolvePath cwd (request_url req)) = Some 400
      \<or> status (parseAndResolvePath cwd (request_url req)) = Some 403"
    by (auto simp: parseAndResolvePath_def Let_def split: option.splits if_splits)
  then show ?thesis by (auto simp: handler_def Let_def)
next
  case (Some p)
  from resolved_shape [OF this] show ?thesis
    using Some assms by (simp add: handler_def Let_def)
qed






text \<open>A call with a NUL in its path throws, and the handler sends nothing.\<close>

lemma handlers_thrown:
  "\<not> valid_path p \<Longrightarrow> handleGet now flt p w = (None, w)"
  "\<not> valid_path (path_dirname p) \<Longrightarrow> handlePut now flt p req w = (None, w)"
  "\<not> valid_path p \<Longrightarrow> handleDelete now flt p w = (None, w)"
  by (simp_all add: handleGet_def handlePut_def handleDelete_def fs_stat_def fs_unlink_def)

lemma handlePut_no_parent:
  assumes "valid_path (path_dirname p)" and "files w (path_dirname p) \<noteq> Some Directory"
  shows "handlePut now flt p req w =
           (Some (send now 404 text_plain (Some (StringBody (js ''Not Found\<newline>'')))),
            called (Stat (path_dirname p)) w)"
proof (cases "stat_answer (on_stat_parent flt) w (path_dirname p)")
  case (Inl e)
  then show ?thesis using assms(1) by (simp add: handlePut_def Let_def fs_stat_def)
next
  case (Inr st)
  then have "\<not> isDirectory st"
    using assms(2) stat_answer_directory [of "on_stat_parent flt" w "path_dirname p"] by auto
  then show ?thesis using assms(1) Inr by (simp add: handlePut_def Let_def fs_stat_def)
qed

lemma handlePut_written:
  assumes "valid_path p"
    and "on_stat_parent flt = None" and "files w (path_dirname p) = Some Directory"
    and "\<not> stream_error req"
    and "write_error (on_writeFile flt) w p = None"
  shows "status_of (handlePut now flt p req w)
           = Some (if (case stat_answer (on_stat flt) w p of
                         Inl statErr \<Rightarrow> False
                       | Inr st \<Rightarrow> isFile st)
                   then 200 else 201)"
    and "body_of (handlePut now flt p req w) = Some []"
    and "files (snd (handlePut now flt p req w)) = (files w)(p \<mapsto> File (concat (chunks req)))"
proof -
  let ?d = "concat (chunks req)"
  let ?w1 = "called (Stat (path_dirname p)) w"
  let ?w2 = "called (Stat p) ?w1"
  let ?w3 = "(called (WriteFile p ?d) ?w2)\<lparr>files := (files w)(p \<mapsto> File ?d)\<rparr>"
  have parent: "fs_stat (on_stat_parent flt) (path_dirname p) w
                  = Some (Inr \<lparr>isFile = False, isDirectory = True\<rparr>, ?w1)"
    using assms(1,2,3) valid_dirname by (simp add: fs_stat_def stat_answer_def)
  have target: "fs_stat (on_stat flt) p ?w1 = Some (stat_answer (on_stat flt) w p, ?w2)"
    using assms(1) by (simp add: fs_stat_def answers_called)
  have written: "fs_writeFile (on_writeFile flt) p ?d ?w2 = Some (None, ?w3)"
    using assms(1,5) by (simp add: fs_writeFile_def answers_called files_called)
  have put: "handlePut now flt p req w =
      (Some (send now (if (case stat_answer (on_stat flt) w p of
                             Inl statErr \<Rightarrow> False
                           | Inr st \<Rightarrow> isFile st)
                       then 200 else 201) text_plain (Some (StringBody []))), ?w3)"
    using assms(4) by (simp add: handlePut_def Let_def parent target written readRequestBody_def)
  show "status_of (handlePut now flt p req w)
           = Some (if (case stat_answer (on_stat flt) w p of
                         Inl statErr \<Rightarrow> False
                       | Inr st \<Rightarrow> isFile st)
                   then 200 else 201)"
    unfolding put by (simp add: status_of_def send_statusCode)
  show "body_of (handlePut now flt p req w) = Some []"
    unfolding put by (simp add: body_of_def send_body toBuffer_def)
  show "files (snd (handlePut now flt p req w)) = (files w)(p \<mapsto> File (concat (chunks req)))"
    unfolding put by simp
qed

lemma handlePut_success:
  assumes "status_of (handlePut now flt p req w) = Some 200
           \<or> status_of (handlePut now flt p req w) = Some 201"
  shows "valid_path p"
    and "files (snd (handlePut now flt p req w)) p = Some (File (concat (chunks req)))"
proof -
  have both: "valid_path p
      \<and> files (snd (handlePut now flt p req w)) p = Some (File (concat (chunks req)))"
    using assms
    by (auto simp: handlePut_def Let_def status_of_def fs_stat_def fs_writeFile_def
        readRequestBody_def send_statusCode
        split: sum.splits if_splits option.splits)
  then show "valid_path p"
    and "files (snd (handlePut now flt p req w)) p = Some (File (concat (chunks req)))"
    by simp_all
qed

lemma handleGet_file:
  assumes "valid_path p"
    and "on_stat flt = None" and "on_readFile flt = None" and "files w p = Some (File d)"
  shows "fst (handleGet now flt p w) =
           Some (send now 200 [(js ''Content-Type'', guessContentType p),
                               (js ''Content-Length'', decimal (length d))]
                   (Some (BufferBody d)))"
  using assms
  by (simp add: handleGet_def fs_stat_def fs_readFile_def stat_answer_def read_answer_def
      called_def)

section \<open>Facts about what is emitted\<close>










section \<open>Claims about the resolver\<close>

text \<open>
  C1. The claim: for every raw URL path, also one with \<open>../\<close> segments or one naming a
  sibling directory whose name continues the root's name, the resolver returns a path
  within the served root or rejects the request. The source compares strings with
  \<open>startsWith\<close>, so with the working directory \<open>/srv\<close> (root \<open>/srv/public\<close>) the path
  \<open>/../public-evil/x\<close> resolves to \<open>/srv/public-evil/x\<close>, which is returned although it is
  outside the root.
\<close>

theorem sibling_directory_escapes_root:
  "parseAndResolvePath (js ''/srv'') (js ''/../public-evil/x'')
     = \<lparr>absPath = Some (js ''/srv/public-evil/x''), status = None\<rparr>
   \<and> PUBLIC_DIR (js ''/srv'') = js ''/srv/public''
   \<and> \<not> within_root (js ''/srv/public'') (js ''/srv/public-evil/x'')"
  by (simp add: parseAndResolvePath_def path_eval decode_eval within_root_def)

text \<open>
  The same holds for every absolute working directory, and what the resolver does
  guarantee is the string prefix.
\<close>

lemma sibling_directory_escapes_any_root:
  assumes "absolute cwd"
  shows "\<exists>p. absPath (parseAndResolvePath cwd (js ''/../public-evil/x'')) = Some p
             \<and> \<not> within_root (PUBLIC_DIR cwd) p"
  using parse_sibling [OF assms] not_within_root_sibling by simp

lemma resolved_path_continues_root:
  assumes "absPath (parseAndResolvePath cwd rawUrl) = Some p"
  shows "\<exists>rest. p = PUBLIC_DIR cwd @ rest"
proof -
  have "take (length (PUBLIC_DIR cwd)) p = PUBLIC_DIR cwd"
    using resolved_starts_with_root [OF assms] by (simp add: startsWith_def)
  then have "p = PUBLIC_DIR cwd @ drop (length (PUBLIC_DIR cwd)) p"
    by (metis append_take_drop_id)
  then show ?thesis ..
qed

lemma sibling_file_is_served:
  "(let w = \<lparr>files = [js ''/srv/public'' \<mapsto> Directory, js ''/srv/public-evil/x'' \<mapsto> File [0x21]],
              calls = []\<rparr>;
        out = handler (js ''/srv'') example_now no_faults
                (example_request ''GET'' ''/../public-evil/x'') w
    in status_of out = Some 200 \<and> body_of out = Some [0x21])"
proof -
  let ?w = "\<lparr>files = [js ''/srv/public'' \<mapsto> Directory, js ''/srv/public-evil/x'' \<mapsto> File [0x21]],
             calls = []\<rparr>"
  let ?req = "example_request ''GET'' ''/../public-evil/x''"
  have m: "request_method ?req = js ''GET''"
    by (simp add: request_eval)
  have p: "absPath (parseAndResolvePath (js ''/srv'') (request_url ?req))
             = Some (js ''/srv/public-evil/x'')"
    by (simp add: request_eval parseAndResolvePath_def path_eval decode_eval)
  have nf: "on_stat no_faults = None" "on_readFile no_faults = None"
    by (simp_all add: no_faults_def)
  have f: "files ?w (js ''/srv/public-evil/x'') = Some (File [0x21])"
    by (simp add: js_def)
  have v: "valid_path (js ''/srv/public-evil/x'')"
    by (simp add: valid_path_def js_def)
  show ?thesis
    unfolding Let_def handler_dispatch(1) [OF p m]
    using handleGet_file [OF v nf f, of example_now]
    by (simp add: status_of_def body_of_def send_statusCode send_body toBuffer_def)
qed


lemma split_fallback_unused: "at_index (split_on QUESTION rawUrl) 0 \<noteq> None"
  by (cases "split_on QUESTION rawUrl") (simp_all add: split_on_nonempty)


lemma empty_path_is_not_found:
  "status_of (handler (js ''/srv'') example_now no_faults
                (example_request ''GET'' ''?x=1'') example_site) = Some 404
   \<and> status_of (handler (js ''/srv'') example_now no_faults
                  (example_request ''GET'' ''/'') example_site) = Some 200"
proof -
  let ?empty = "example_request ''GET'' ''?x=1''"
  let ?slash = "example_request ''GET'' ''/''"
  have m: "request_method ?empty = js ''GET''" "request_method ?slash = js ''GET''"
    by (simp_all add: request_eval)
  have p: "absPath (parseAndResolvePath (js ''/srv'') (request_url ?empty))
             = Some (js ''/srv/public'')"
    by (simp add: request_eval parseAndResolvePath_def path_eval decode_eval)
  have q: "absPath (parseAndResolvePath (js ''/srv'') (request_url ?slash))
             = Some (js ''/srv/public/index.html'')"
    by (simp add: request_eval parseAndResolvePath_def path_eval decode_eval)
  have nf: "on_stat no_faults = None" "on_readFile no_faults = None"
    by (simp_all add: no_faults_def)
  have f: "files example_site (js ''/srv/public/index.html'')
             = Some (File (utf8_encode (js ''<h1>hi</h1>'')))"
    by (simp add: example_site_def js_def)
  have v: "valid_path (js ''/srv/public/index.html'')"
    by (simp add: valid_path_def js_def)
  have dir: "status_of (handleGet example_now no_faults (js ''/srv/public'') example_site)
               = Some 404"
    by (simp add: handleGet_def fs_stat_def stat_answer_def valid_path_def nf example_site_def
        js_def status_of_def send_statusCode)
  show ?thesis
    unfolding handler_dispatch(1) [OF p m(1)] handler_dispatch(1) [OF q m(2)]
    using dir handleGet_file [OF v nf f, of example_now]
    by (simp add: status_of_def send_statusCode)
qed

text \<open>The read-only server resolves in line and answers the empty path in the same way.\<close>

lemma empty_path_is_not_found_read_only:
  "status_of (handler_index (js ''/srv'') example_now no_faults
                (example_request ''GET'' ''?x=1'') example_site) = Some 404"
proof -
  let ?req = "example_request ''GET'' ''?x=1''"
  let ?p = "js ''/srv/public''"
  have m: "request_method ?req = js ''GET''"
    by (simp add: request_eval)
  have steps:
    "request_url ?req = js ''?x=1''"
    "pathname_of (js ''?x=1'') = []"
    "[] \<noteq> js ''/''"
    "decodeURIComponent [] = Some []"
    "PUBLIC_DIR (js ''/srv'') = js ''/srv/public''"
    "path_resolve (js ''/srv'') [js ''/srv/public'', [DOT]] = ?p"
    "startsWith ?p (js ''/srv/public'')"
    by (simp_all add: request_eval path_eval decode_eval)
  have nf: "on_stat no_faults = None"
    by (simp add: no_faults_def)
  have io: "fs_stat None ?p example_site
       = Some (Inr \<lparr>isFile = False, isDirectory = True\<rparr>, called (Stat ?p) example_site)"
    by (simp add: fs_stat_def stat_answer_def valid_path_def example_site_def js_def)
  have "fst (handler_index (js ''/srv'') example_now no_faults ?req example_site)
      = Some (send_index example_now 404 text_plain (Some (StringBody (js ''Not Found\<newline>''))))"
    using m steps io nf by (simp add: handler_index_def Let_def)
  then show ?thesis
    by (simp add: status_of_def send_index_statusCode)
qed






text \<open>
  C10. For every input string the resolver returns exactly one of three results: a
  non-empty path and no status, status 400 and no path, or status 403 and no path. So the
  handler's test \<open>!parsed.absPath\<close>, reached when the status is neither 400 nor 403, never
  holds: the handler answers 400 or 403 on a rejection and otherwise goes on to the method
  with the resolved path, and the answer 500 behind that test is never given.
\<close>

theorem parseAndResolvePath_three_results:
  "(let r = parseAndResolvePath cwd rawUrl;
        resolved = (\<exists>p. p \<noteq> [] \<and> absPath r = Some p \<and> status r = None);
        bad_request = (absPath r = None \<and> status r = Some 400);
        forbidden = (absPath r = None \<and> status r = Some 403)
    in (resolved \<or> bad_request \<or> forbidden)
       \<and> \<not> (resolved \<and> bad_request) \<and> \<not> (resolved \<and> forbidden)
       \<and> \<not> (bad_request \<and> forbidden)
       \<and> \<not> (status r \<noteq> Some 400 \<and> status r \<noteq> Some 403 \<and> falsy (absPath r))
       \<and> (request_url req = rawUrl \<longrightarrow>
            (bad_request \<longrightarrow>
               handler cwd now flt req w
                 = (Some (send now 400 text_plain
                            (Some (StringBody (js ''Bad Request\<newline>'')))), w))
            \<and> (forbidden \<longrightarrow>
                 handler cwd now flt req w
                   = (Some (send now 403 text_plain
                              (Some (StringBody (js ''Forbidden\<newline>'')))), w))
            \<and> (\<forall>p. absPath r = Some p \<longrightarrow>
                 handler cwd now flt req w
                   = (if request_method req = js ''GET'' then handleGet now flt p w
                      else if request_method req = js ''PUT'' then handlePut now flt p req w
                      else if request_method req = js ''DELETE'' then handleDelete now flt p w
                      else (Some (send now 405 text_plain
                                    (Some (StringBody (js ''Method Not Allowed\<newline>'')))),
                            w)))))"
proof -
  let ?r = "parseAndResolvePath cwd rawUrl"
  have results: "(\<exists>p. p \<noteq> [] \<and> absPath ?r = Some p \<and> status ?r = None)
      \<or> (absPath ?r = None \<and> status ?r = Some 400) \<or> (absPath ?r = None \<and> status ?r = Some 403)"
    by (auto simp: parseAndResolvePath_def Let_def path_resolve_nonempty split: option.splits)
  have dispatch: "handler cwd now flt req w
      = (if request_method req = js ''GET'' then handleGet now flt p w
         else if request_method req = js ''PUT'' then handlePut now flt p req w
         else if request_method req = js ''DELETE'' then handleDelete now flt p w
         else (Some (send now 405 text_plain
                       (Some (StringBody (js ''Method Not Allowed\<newline>'')))), w))"
    if "request_url req = rawUrl" "absPath ?r = Some p" for p
    using that resolved_shape [of cwd rawUrl p] by (simp add: handler_def Let_def)
  have rejected: "request_url req = rawUrl \<Longrightarrow> status ?r = Some 400 \<Longrightarrow>
      handler cwd now flt req w
        = (Some (send now 400 text_plain (Some (StringBody (js ''Bad Request\<newline>'')))), w)"
    "request_url req = rawUrl \<Longrightarrow> status ?r = Some 403 \<Longrightarrow>
      handler cwd now flt req w
        = (Some (send now 403 text_plain (Some (StringBody (js ''Forbidden\<newline>'')))), w)"
    by (simp_all add: handler_def Let_def)
  show ?thesis
    unfolding Let_def
    using results dispatch rejected by (auto simp: falsy_def)
qed

theorem parseAndResolvePath_three_results_witness:
  "absPath (parseAndResolvePath (js ''/srv'') (js ''/a.txt'')) = Some (js ''/srv/public/a.txt'')
   \<and> status (parseAndResolvePath (js ''/srv'') (js ''/a.txt'')) = None
   \<and> \<not> falsy (absPath (parseAndResolvePath (js ''/srv'') (js ''/a.txt'')))
   \<and> status (parseAndResolvePath (js ''/srv'') (js ''/%zz'')) = Some 400
   \<and> status (parseAndResolvePath (js ''/srv'') (js ''/../../etc/passwd'')) = Some 403
   \<and> request_url (example_request ''PATCH'' ''/a.txt'') = js ''/a.txt''
   \<and> status_of (handler (js ''/srv'') example_now no_faults
                   (example_request ''PATCH'' ''/a.txt'') empty_world) = Some 405"
proof -
  have u: "request_url (example_request ''PATCH'' ''/a.txt'') = js ''/a.txt''"
    by (simp add: request_eval)
  have m: "request_method (example_request ''PATCH'' ''/a.txt'') \<noteq> js ''GET''"
    "request_method (example_request ''PATCH'' ''/a.txt'') \<noteq> js ''PUT''"
    "request_method (example_request ''PATCH'' ''/a.txt'') \<noteq> js ''DELETE''"
    by (simp_all add: request_eval js_def)
  have a: "parseAndResolvePath (js ''/srv'') (js ''/a.txt'')
             = \<lparr>absPath = Some (js ''/srv/public/a.txt''), status = None\<rparr>"
    by (simp add: parseAndResolvePath_def path_eval decode_eval)
  have b: "status (parseAndResolvePath (js ''/srv'') (js ''/%zz'')) = Some 400"
    by (simp add: parseAndResolvePath_def path_eval decode_eval)
  have c: "status (parseAndResolvePath (js ''/srv'') (js ''/../../etc/passwd'')) = Some 403"
    by (simp add: parseAndResolvePath_def path_eval decode_eval)
  show ?thesis
    using parseAndResolvePath_three_results [of "js ''/srv''" "js ''/a.txt''"
        "example_request ''PATCH'' ''/a.txt''" example_now no_faults empty_world]
      u m b c
    by (simp add: Let_def a falsy_def status_of_def send_statusCode)
qed

section \<open>Claims about dispatch and response headers\<close>

text \<open>
  C2. The claim: a request whose method is not GET, PUT or DELETE is answered 405 for
  every URL path, malformed or escaping ones included, and changes nothing in the file
  system. The full server resolves the path before it looks at the method, so a malformed
  path is answered 400 (and an escaping one 403) whatever the method.
\<close>

theorem unsupported_method_malformed_path_counterexample:
  "status_of (handler (js ''/srv'') example_now no_faults
                (example_request ''PATCH'' ''/%zz'') empty_world) = Some 400"
  by (simp add: handler_def request_eval parseAndResolvePath_def path_eval decode_eval
      status_of_def send_statusCode)

text \<open>
  C2 as amended: for a method other than GET, PUT and DELETE the full server makes no
  file system call and answers 400 when decoding fails, 403 when the resolved path does
  not start with the root, and 405 exactly when the path resolves; the read-only server
  answers 405 to every method other than GET before it looks at the path.
\<close>

theorem unsupported_method_answer:
  "request_method req \<noteq> js ''GET'' \<longrightarrow>
     handler_index cwd now flt req w
       = (Some (send_index now 405 text_plain
                  (Some (StringBody (js ''Method Not Allowed\<newline>'')))), w)
     \<and> (request_method req \<noteq> js ''PUT'' \<longrightarrow> request_method req \<noteq> js ''DELETE'' \<longrightarrow>
          (let r = parseAndResolvePath cwd (request_url req);
               out = handler cwd now flt req w
           in snd out = w
              \<and> status_of out
                  = Some (if status r = Some 400 then 400
                          else if status r = Some 403 then 403 else 405)
              \<and> (status_of out = Some 405 \<longleftrightarrow> absPath r \<noteq> None)))"
proof (intro impI conjI)
  assume "request_method req \<noteq> js ''GET''"
  then show "handler_index cwd now flt req w
       = (Some (send_index now 405 text_plain
                  (Some (StringBody (js ''Method Not Allowed\<newline>'')))), w)"
    by (simp add: handler_index_def Let_def)
next
  let ?r = "parseAndResolvePath cwd (request_url req)"
  assume m: "request_method req \<noteq> js ''GET''" "request_method req \<noteq> js ''PUT''"
    "request_method req \<noteq> js ''DELETE''"
  have shape: "(status ?r = Some 400 \<and> absPath ?r = None) \<or> (status ?r = Some 403 \<and> absPath ?r = None)
      \<or> (status ?r = None \<and> absPath ?r \<noteq> None)"
    by (auto simp: parseAndResolvePath_def Let_def split: option.splits)
  show "(let r = ?r; out = handler cwd now flt req w
         in snd out = w
            \<and> status_of out
                = Some (if status r = Some 400 then 400
                        else if status r = Some 403 then 403 else 405)
            \<and> (status_of out = Some 405 \<longleftrightarrow> absPath r \<noteq> None))"
    using shape unfolding handler_unsupported [OF m]
    by (auto simp: Let_def status_of_def send_statusCode)
qed

theorem unsupported_method_answer_witness:
  "request_method (example_request ''PATCH'' ''/a.txt'') \<noteq> js ''GET''
   \<and> request_method (example_request ''PATCH'' ''/a.txt'') \<noteq> js ''PUT''
   \<and> request_method (example_request ''PATCH'' ''/a.txt'') \<noteq> js ''DELETE''
   \<and> handler_index (js ''/srv'') example_now no_faults (example_request ''PATCH'' ''/a.txt'')
         empty_world
       = (Some (send_index example_now 405 text_plain
                  (Some (StringBody (js ''Method Not Allowed\<newline>'')))), empty_world)
   \<and> snd (handler (js ''/srv'') example_now no_faults (example_request ''PATCH'' ''/a.txt'')
             empty_world) = empty_world
   \<and> status_of (handler (js ''/srv'') example_now no_faults
                   (example_request ''PATCH'' ''/a.txt'') empty_world) = Some 405
   \<and> status_of (handler (js ''/srv'') example_now no_faults
                   (example_request ''PATCH'' ''/../..'') empty_world) = Some 403"
proof -
  have m: "request_method (example_request ''PATCH'' u) \<noteq> js ''GET''"
    "request_method (example_request ''PATCH'' u) \<noteq> js ''PUT''"
    "request_method (example_request ''PATCH'' u) \<noteq> js ''DELETE''" for u
    by (simp_all add: request_eval js_def)
  have a: "status (parseAndResolvePath (js ''/srv'') (js ''/a.txt'')) = None"
    by (simp add: parseAndResolvePath_def path_eval decode_eval)
  have b: "status (parseAndResolvePath (js ''/srv'') (js ''/../..'')) = Some 403"
    by (simp add: parseAndResolvePath_def path_eval decode_eval)
  have u: "request_url (example_request ''PATCH'' u) = js u" for u
    by (simp add: request_eval)
  show ?thesis
    using m [of "''/a.txt''"]
      unsupported_method_answer [of "example_request ''PATCH'' ''/a.txt''" "js ''/srv''"
        example_now no_faults empty_world]
      unsupported_method_answer [of "example_request ''PATCH'' ''/../..''" "js ''/srv''"
        example_now no_faults empty_world]
      m [of "''/../..''"] a b
    by (simp add: Let_def u)
qed

text \<open>
  C3. The claim: when percent-decoding of the path fails the resolver returns the
  rejection 400 and the server answers 400 without touching the file system. The
  read-only server checks the method first and answers a method other than GET with 405
  before it decodes anything.
\<close>

theorem malformed_escape_read_only_counterexample:
  "decodeURIComponent (pathname_of (request_url (example_request ''PATCH'' ''/%zz''))) = None
   \<and> status_of (handler_index (js ''/srv'') example_now no_faults
                   (example_request ''PATCH'' ''/%zz'') empty_world) = Some 405"
  by (simp add: handler_index_def request_eval path_eval decode_eval status_of_def
      send_index_statusCode)

text \<open>
  C3 as amended: when percent-decoding of the path fails, the resolver returns status 400
  and no path; the full server answers 400 for every method, the read-only server for
  GET; neither makes a file system call or changes a file.
\<close>

theorem malformed_escape_is_bad_request:
  assumes "decodeURIComponent (pathname_of (request_url req)) = None"
  shows "parseAndResolvePath cwd (request_url req) = \<lparr>absPath = None, status = Some 400\<rparr>
         \<and> handler cwd now flt req w
             = (Some (send now 400 text_plain (Some (StringBody (js ''Bad Request\<newline>'')))), w)
         \<and> status_of (handler cwd now flt req w) = Some 400
         \<and> (request_method req = js ''GET'' \<longrightarrow>
               handler_index cwd now flt req w
                 = (Some (send_index now 400 text_plain
                            (Some (StringBody (js ''Bad Request\<newline>'')))), w)
               \<and> status_of (handler_index cwd now flt req w) = Some 400)"
proof -
  have "pathname_of (request_url req) \<noteq> js ''/''"
    using assms by (auto simp: js_def)
  then show ?thesis
    using assms parse_bad_escape [OF assms, of cwd]
    by (simp add: handler_def handler_index_def Let_def status_of_def send_statusCode
        send_index_statusCode)
qed

theorem malformed_escape_is_bad_request_witness:
  "decodeURIComponent (pathname_of (request_url (example_request ''GET'' ''/%zz''))) = None
   \<and> parseAndResolvePath (js ''/srv'') (js ''/%zz'') = \<lparr>absPath = None, status = Some 400\<rparr>
   \<and> status_of (handler (js ''/srv'') example_now no_faults
                   (example_request ''GET'' ''/%zz'') empty_world) = Some 400
   \<and> snd (handler (js ''/srv'') example_now no_faults
             (example_request ''GET'' ''/%zz'') empty_world) = empty_world
   \<and> status_of (handler_index (js ''/srv'') example_now no_faults
                   (example_request ''GET'' ''/%zz'') empty_world) = Some 400"
proof -
  have d: "decodeURIComponent (pathname_of (request_url (example_request ''GET'' ''/%zz''))) = None"
    by (simp add: request_eval path_eval decode_eval)
  have g: "request_method (example_request ''GET'' ''/%zz'') = js ''GET''"
    by (simp add: request_eval)
  have u: "request_url (example_request ''GET'' ''/%zz'') = js ''/%zz''"
    by (simp add: request_eval)
  show ?thesis
    using d g malformed_escape_is_bad_request [OF d, of "js ''/srv''" example_now no_faults
        empty_world]
    by (simp add: u status_of_def send_statusCode send_index_statusCode)
qed




section \<open>Claims about PUT, GET and DELETE\<close>

text \<open>
  C6. The claim: for every PUT whose resolved path has a parent that is missing or not a
  directory, the server answers 404 and the file system is as before. The path
  \<open>/%00/foo.txt\<close> decodes to a path with a NUL code unit and resolves under the root; its
  parent does not exist. \<open>fs.stat\<close> throws on that parent before it calls back, the source
  catches no exception there, and the request is given no response at all.
\<close>

theorem put_under_nul_directory_is_not_answered:
  "(let req = example_request ''PUT'' ''/%00/foo.txt'';
        p = js ''/srv/public/'' @ [0] @ js ''/foo.txt''
    in request_method req = js ''PUT''
       \<and> absPath (parseAndResolvePath (js ''/srv'') (request_url req)) = Some p
       \<and> path_dirname p = js ''/srv/public/'' @ [0]
       \<and> files example_site (path_dirname p) = None
       \<and> handler (js ''/srv'') example_now no_faults req example_site = (None, example_site))"
proof -
  let ?req = "example_request ''PUT'' ''/%00/foo.txt''"
  let ?p = "js ''/srv/public/'' @ [0] @ js ''/foo.txt''"
  have m: "request_method ?req = js ''PUT''"
    by (simp add: request_eval)
  have p: "absPath (parseAndResolvePath (js ''/srv'') (request_url ?req)) = Some ?p"
    by (simp add: request_eval parseAndResolvePath_def path_eval decode_eval)
  have d: "path_dirname ?p = js ''/srv/public/'' @ [0]"
    by (simp add: path_dirname_def js_def)
  have f: "files example_site (path_dirname ?p) = None"
    unfolding d by (simp add: example_site_def js_def)
  have "\<not> valid_path (path_dirname ?p)"
    unfolding d by (simp add: valid_path_def)
  then have "handler (js ''/srv'') example_now no_faults ?req example_site = (None, example_site)"
    unfolding handler_dispatch(2) [OF p m] by (rule handlers_thrown(2))
  then show ?thesis
    using m p d f by (simp add: Let_def)
qed

text \<open>
  For a parent path without NUL the claim holds: whatever the faults of the calls, the
  answer is 404, the files are as before, and the only call made is the \<open>stat\<close> of the
  parent, so no file and no directory is created.
\<close>

lemma put_without_parent_directory:
  assumes "request_method req = js ''PUT''"
    and "absPath (parseAndResolvePath cwd (request_url req)) = Some p"
    and "valid_path (path_dirname p)"
    and "files w (path_dirname p) \<noteq> Some Directory"
  shows "status_of (handler cwd now flt req w) = Some 404
         \<and> files (snd (handler cwd now flt req w)) = files w
         \<and> calls (snd (handler cwd now flt req w)) = calls w @ [Stat (path_dirname p)]"
  unfolding handler_dispatch(2) [OF assms(2) assms(1)] handlePut_no_parent [OF assms(3,4)]
  by (simp add: status_of_def send_statusCode files_called calls_called)

lemma put_without_parent_directory_example:
  "(let req = example_request ''PUT'' ''/missingdir/foo.txt'';
        out = handler (js ''/srv'') example_now no_faults req example_site
    in absPath (parseAndResolvePath (js ''/srv'') (request_url req))
         = Some (js ''/srv/public/missingdir/foo.txt'')
       \<and> files example_site (js ''/srv/public/missingdir'') = None
       \<and> status_of out = Some 404
       \<and> files (snd out) = files example_site
       \<and> calls (snd out) = [Stat (js ''/srv/public/missingdir'')])"
proof -
  let ?req = "example_request ''PUT'' ''/missingdir/foo.txt''"
  have m: "request_method ?req = js ''PUT''"
    by (simp add: request_eval)
  have p: "absPath (parseAndResolvePath (js ''/srv'') (request_url ?req))
             = Some (js ''/srv/public/missingdir/foo.txt'')"
    by (simp add: request_eval parseAndResolvePath_def path_eval decode_eval)
  have d: "path_dirname (js ''/srv/public/missingdir/foo.txt'') = js ''/srv/public/missingdir''"
    by (simp add: path_dirname_def js_def)
  have f: "files example_site (js ''/srv/public/missingdir'') = None"
    by (simp add: example_site_def js_def)
  have v: "valid_path (path_dirname (js ''/srv/public/missingdir/foo.txt''))"
    unfolding d by (simp add: valid_path_def js_def)
  have n: "files example_site (path_dirname (js ''/srv/public/missingdir/foo.txt''))
             \<noteq> Some Directory"
    by (simp add: d f)
  have c: "calls example_site = []"
    by (simp add: example_site_def)
  show ?thesis
    using put_without_parent_directory [OF m p v n, of example_now no_faults] p d f c
    by (simp add: Let_def)
qed

text \<open>
  C4. For every PUT to a resolved path whose parent directory exists, when the whole body
  was drained and the write succeeds, the answer is 201 if the target was not a regular
  file before and 200 if it was, with an empty body, and the file then holds the body.
  \<open>existed\<close> is what the \<open>stat\<close> of the target reports; when that call is answered from
  the file system it says whether the target is a regular file there, and a second
  identical PUT is answered 200.
\<close>

theorem put_created_then_ok:
  assumes "request_method req = js ''PUT''"
    and "absPath (parseAndResolvePath cwd (request_url req)) = Some p"
    and "on_stat_parent flt = None" and "files w (path_dirname p) = Some Directory"
    and "\<not> stream_error req"
    and "\<exists>w'. fs_writeFile (on_writeFile flt) p (concat (chunks req)) w = Some (None, w')"
  shows "(let out = handler cwd now flt req w;
              existed = (case stat_answer (on_stat flt) w p of
                           Inl statErr \<Rightarrow> False
                         | Inr st \<Rightarrow> isFile st)
          in status_of out = Some (if existed then 200 else 201)
             \<and> body_of out = Some []
             \<and> files (snd out) = (files w)(p \<mapsto> File (concat (chunks req)))
             \<and> (on_stat flt = None \<longrightarrow>
                   existed = (\<exists>d. files w p = Some (File d))
                   \<and> status_of (handler cwd now' flt req (snd out)) = Some 200
                   \<and> body_of (handler cwd now' flt req (snd out)) = Some []
                   \<and> files (snd (handler cwd now' flt req (snd out))) = files (snd out)))"
proof -
  let ?d = "concat (chunks req)"
  let ?w1 = "snd (handlePut now flt p req w)"
  note put = handler_dispatch(2) [OF assms(2) assms(1)]
  have valid: "valid_path p" and no_error: "write_error (on_writeFile flt) w p = None"
    using assms(6) by (auto simp: fs_writeFile_def split: if_splits option.splits)
  note first = handlePut_written [OF valid assms(3,4,5) no_error, of now]
  have target: "files w p \<noteq> Some Directory" and wf: "on_writeFile flt = None"
    using no_error by (simp_all add: write_error_ok)
  then have distinct: "path_dirname p \<noteq> p" using assms(4) by auto
  have files1: "files ?w1 = (files w)(p \<mapsto> File ?d)" by (rule first(3))
  have parent1: "files ?w1 (path_dirname p) = Some Directory"
    using distinct assms(4) by (simp add: files1)
  have no_error1: "write_error (on_writeFile flt) ?w1 p = None"
    using wf parent1 by (simp add: write_error_ok files1)
  note second = handlePut_written [OF valid assms(3) parent1 assms(5) no_error1, of now']
  have reported: "on_stat flt = None \<Longrightarrow>
      (case stat_answer (on_stat flt) w p of Inl statErr \<Rightarrow> False | Inr st \<Rightarrow> isFile st)
        = (\<exists>d. files w p = Some (File d))"
    by (simp add: stat_answer_def split: option.splits node.splits)
  have again: "on_stat flt = None \<Longrightarrow>
      status_of (handlePut now' flt p req ?w1) = Some 200"
    unfolding second(1) by (simp add: stat_answer_def files1)
  show ?thesis
    unfolding put Let_def
    using first(1,2) files1 reported again second(2,3) by simp
qed

theorem put_created_then_ok_witness:
  "(let req = (example_request ''PUT'' ''/foo.txt'')\<lparr>chunks := [[0x68], [0x69]]\<rparr>;
        out1 = handler (js ''/srv'') example_now no_faults req example_site;
        out2 = handler (js ''/srv'') example_now no_faults req (snd out1)
    in request_method req = js ''PUT''
       \<and> absPath (parseAndResolvePath (js ''/srv'') (request_url req))
           = Some (js ''/srv/public/foo.txt'')
       \<and> on_stat_parent no_faults = None \<and> on_stat no_faults = None
       \<and> files example_site (path_dirname (js ''/srv/public/foo.txt'')) = Some Directory
       \<and> files example_site (js ''/srv/public/foo.txt'') = None
       \<and> \<not> stream_error req
       \<and> map_option fst (fs_writeFile (on_writeFile no_faults) (js ''/srv/public/foo.txt'')
                           (concat (chunks req)) example_site) = Some None
       \<and> status_of out1 = Some 201 \<and> body_of out1 = Some []
       \<and> files (snd out1) (js ''/srv/public/foo.txt'') = Some (File [0x68, 0x69])
       \<and> status_of out2 = Some 200 \<and> body_of out2 = Some [])"
proof -
  let ?req = "(example_request ''PUT'' ''/foo.txt'')\<lparr>chunks := [[0x68], [0x69]]\<rparr>"
  let ?p = "js ''/srv/public/foo.txt''"
  have m: "request_method ?req = js ''PUT''"
    by (simp add: request_eval)
  have p: "absPath (parseAndResolvePath (js ''/srv'') (request_url ?req)) = Some ?p"
    by (simp add: request_eval parseAndResolvePath_def path_eval decode_eval)
  have d: "path_dirname ?p = js ''/srv/public''"
    by (simp add: path_dirname_def js_def)
  have parent: "files example_site (path_dirname ?p) = Some Directory"
    unfolding d by (simp add: example_site_def js_def)
  have absent: "files example_site ?p = None"
    by (simp add: example_site_def js_def)
  have nf: "on_stat_parent no_faults = None" "on_stat no_faults = None"
    "on_writeFile no_faults = None"
    by (simp_all add: no_faults_def)
  have drained: "\<not> stream_error ?req"
    by (simp add: example_request_def)
  have v: "valid_path ?p"
    by (simp add: valid_path_def js_def)
  have no_error: "write_error (on_writeFile no_faults) example_site ?p = None"
    using parent absent nf(3) by (simp add: write_error_ok)
  have written: "\<exists>w'. fs_writeFile (on_writeFile no_faults) ?p (concat (chunks ?req)) example_site
                   = Some (None, w')"
    using v no_error by (simp add: fs_writeFile_def)
  then have ok: "map_option fst (fs_writeFile (on_writeFile no_faults) ?p (concat (chunks ?req))
                   example_site) = Some None"
    by auto
  have data: "concat (chunks ?req) = [0x68, 0x69]"
    by (simp add: example_request_def)
  have stat: "stat_answer None example_site ?p = Inl (js ''ENOENT'')"
    using absent by (simp add: stat_answer_def)
  show ?thesis
    using put_created_then_ok [OF m p nf(1) parent drained written, of example_now example_now]
      m p parent absent drained ok nf(1,2) stat
    by (simp add: Let_def data)
qed

text \<open>
  C7. The claim: for every DELETE of a resolved path, the answer is 204 with an empty body
  and \<open>Content-Length: 0\<close> when the removal succeeds, 404 when the file does not exist, and
  500 on any other failure of the removal. The path \<open>/%00\<close> resolves under the root to a
  path with a NUL code unit; no such file exists. \<open>fs.unlink\<close> throws on it before it
  calls back, the source catches no exception there, and the request is given no
  response: neither 404 nor 500. This is the defect shown for C6, met at another call.
\<close>

theorem delete_of_nul_path_is_not_answered:
  "(let req = example_request ''DELETE'' ''/%00'';
        p = js ''/srv/public/'' @ [0]
    in request_method req = js ''DELETE''
       \<and> absPath (parseAndResolvePath (js ''/srv'') (request_url req)) = Some p
       \<and> files example_site p = None
       \<and> handler (js ''/srv'') example_now no_faults req example_site = (None, example_site))"
proof -
  let ?req = "example_request ''DELETE'' ''/%00''"
  let ?p = "js ''/srv/public/'' @ [0]"
  have m: "request_method ?req = js ''DELETE''"
    by (simp add: request_eval)
  have p: "absPath (parseAndResolvePath (js ''/srv'') (request_url ?req)) = Some ?p"
    by (simp add: request_eval parseAndResolvePath_def path_eval decode_eval)
  have f: "files example_site ?p = None"
    by (simp add: example_site_def js_def)
  have "\<not> valid_path ?p"
    by (simp add: valid_path_def)
  then have "handler (js ''/srv'') example_now no_faults ?req example_site = (None, example_site)"
    unfolding handler_dispatch(3) [OF p m] by (rule handlers_thrown(3))
  then show ?thesis
    using m p f by (simp add: Let_def)
qed

text \<open>
  For a path without NUL the answer follows what \<open>unlink\<close> reports: 204 with an empty
  body and \<open>Content-Length: 0\<close> when it reports no error, 404 when it reports \<open>ENOENT\<close>,
  500 for every other error code; two deletes of a file are answered 204 and then 404.
  A file that does not exist is reported as \<open>ENOENT\<close> only if its path goes through no
  regular file: \<open>/index.html/foo\<close> does not exist, \<open>unlink\<close> reports \<open>ENOTDIR\<close> and the
  answer is 500 where the claim asks for 404.
\<close>

lemma delete_answers:
  assumes "request_method req = js ''DELETE''"
    and "absPath (parseAndResolvePath cwd (request_url req)) = Some p"
    and "valid_path p"
  shows "(let out = handler cwd now flt req w
          in (unlink_error (on_unlink flt) w p = None \<longrightarrow>
                status_of out = Some 204 \<and> body_of out = Some []
                \<and> header_of out (js ''Content-Length'') = Some (js ''0''))
             \<and> (unlink_error (on_unlink flt) w p = Some (js ''ENOENT'') \<longrightarrow>
                   status_of out = Some 404)
             \<and> (on_unlink flt = None \<and> files w p = None \<and> \<not> under_file w p \<longrightarrow>
                   status_of out = Some 404 \<and> files (snd out) = files w)
             \<and> (on_unlink flt = None \<and> under_file w p \<longrightarrow>
                   status_of out = Some 500 \<and> files (snd out) = files w)
             \<and> (\<forall>e. unlink_error (on_unlink flt) w p = Some e \<and> e \<noteq> js ''ENOENT'' \<longrightarrow>
                   status_of out = Some 500)
             \<and> (on_unlink flt = None \<and> \<not> under_file w p \<and> (\<exists>d. files w p = Some (File d)) \<longrightarrow>
                   status_of out = Some 204 \<and> files (snd out) = (files w)(p := None)
                   \<and> status_of (handler cwd now' flt req (snd out)) = Some 404))"
proof -
  note del = handler_dispatch(3) [OF assms(2) assms(1)]
  have no_content: "getHeader (send now 204 [(js ''Content-Type'', js ''text/plain; charset=utf-8''),
        (js ''Content-Length'', js ''0'')] None) (js ''Content-Length'') = Some (js ''0'')"
    unfolding send_typed_sized by (simp add: getHeader_def toLowerCase_def js_def)
  have removed: "unlink_error (on_unlink flt) w p = None \<Longrightarrow>
      status_of (handleDelete now flt p w) = Some 204
      \<and> body_of (handleDelete now flt p w) = Some []
      \<and> header_of (handleDelete now flt p w) (js ''Content-Length'') = Some (js ''0'')
      \<and> files (snd (handleDelete now flt p w)) = (files w)(p := None)"
    using assms(3)
    by (simp add: handleDelete_def fs_unlink_def status_of_def body_of_def header_of_def
        send_statusCode send_body toBuffer_def no_content files_called)
  have failed: "unlink_error (on_unlink flt) w p = Some e \<Longrightarrow>
      status_of (handleDelete now flt p w) = Some (if e = js ''ENOENT'' then 404 else 500)
      \<and> files (snd (handleDelete now flt p w)) = files w" for e now w
    using assms(3)
    by (simp add: handleDelete_def fs_unlink_def status_of_def send_statusCode files_called)
  have missing: "on_unlink flt = None \<Longrightarrow> files w p = None \<Longrightarrow> \<not> under_file w p \<Longrightarrow>
      unlink_error (on_unlink flt) w p = Some (js ''ENOENT'')" for w
    by (simp add: unlink_error_cases(2))
  have below: "on_unlink flt = None \<Longrightarrow> under_file w p \<Longrightarrow>
      unlink_error (on_unlink flt) w p = Some (js ''ENOTDIR'')"
    by (simp add: unlink_error_cases(3))
  have codes: "js ''ENOTDIR'' \<noteq> js ''ENOENT''"
    by (simp add: js_def)
  have present: "on_unlink flt = None \<Longrightarrow> \<not> under_file w p \<Longrightarrow> files w p = Some (File d) \<Longrightarrow>
      unlink_error (on_unlink flt) w p = None" for d
    by (simp add: unlink_error_def)
  have again: "on_unlink flt = None \<Longrightarrow> \<not> under_file w p \<Longrightarrow> files w p = Some (File d) \<Longrightarrow>
      status_of (handleDelete now' flt p (snd (handleDelete now flt p w))) = Some 404" for d
  proof -
    assume a: "on_unlink flt = None" "\<not> under_file w p" "files w p = Some (File d)"
    let ?w1 = "snd (handleDelete now flt p w)"
    have files1: "files ?w1 = (files w)(p := None)"
      using removed [OF present [OF a]] by simp
    then have "files ?w1 p = None" by simp
    moreover have "\<not> under_file ?w1 p"
      using under_file_update [OF files1] a(2) by simp
    ultimately show ?thesis
      using failed [OF missing [OF a(1)], of ?w1 now'] by simp
  qed
  have below_answer: "on_unlink flt = None \<Longrightarrow> under_file w p \<Longrightarrow>
      status_of (handleDelete now flt p w) = Some 500
      \<and> files (snd (handleDelete now flt p w)) = files w"
    using failed [OF below, of now] codes by simp
  show ?thesis
    unfolding del Let_def
    using removed failed [where w = w and now = now] missing [of w] present again below_answer
    by (auto simp: js_def)
qed

lemma delete_answers_example:
  "(let req = example_request ''DELETE'' ''/index.html'';
        out1 = handler (js ''/srv'') example_now no_faults req example_site;
        out2 = handler (js ''/srv'') example_now no_faults req (snd out1)
    in status_of out1 = Some 204 \<and> body_of out1 = Some []
       \<and> header_of out1 (js ''Content-Length'') = Some (js ''0'')
       \<and> files (snd out1) (js ''/srv/public/index.html'') = None
       \<and> status_of out2 = Some 404)
   \<and> status_of (handler (js ''/srv'') example_now no_faults (example_request ''DELETE'' ''/.'')
                  example_site) = Some 500"
proof -
  let ?req = "example_request ''DELETE'' ''/index.html''"
  let ?p = "js ''/srv/public/index.html''"
  let ?dir = "example_request ''DELETE'' ''/.''"
  have m: "request_method ?req = js ''DELETE''" "request_method ?dir = js ''DELETE''"
    by (simp_all add: request_eval)
  have p: "absPath (parseAndResolvePath (js ''/srv'') (request_url ?req)) = Some ?p"
    by (simp add: request_eval parseAndResolvePath_def path_eval decode_eval)
  have q: "absPath (parseAndResolvePath (js ''/srv'') (request_url ?dir)) = Some (js ''/srv/public'')"
    by (simp add: request_eval parseAndResolvePath_def path_eval decode_eval)
  have v: "valid_path ?p" "valid_path (js ''/srv/public'')"
    by (simp_all add: valid_path_def js_def)
  have nf: "on_unlink no_faults = None"
    by (simp add: no_faults_def)
  have f: "files example_site ?p = Some (File (utf8_encode (js ''<h1>hi</h1>'')))"
    by (simp add: example_site_def js_def)
  have u: "\<not> under_file example_site ?p" "\<not> under_file example_site (js ''/srv/public'')"
    by (simp_all add: under_file_def ancestors_def example_site_def js_def)
  have e: "unlink_error (on_unlink no_faults) example_site (js ''/srv/public'')
             = Some (js ''EISDIR'')"
    using nf u(2) by (simp add: unlink_error_def example_site_def js_def)
  have ne: "js ''EISDIR'' \<noteq> js ''ENOENT''"
    by (simp add: js_def)
  have ok: "unlink_error None example_site ?p = None"
    using f u(1) by (simp add: unlink_error_def)
  show ?thesis
    using delete_answers [OF m(1) p v(1), of example_now no_faults example_site example_now]
      delete_answers [OF m(2) q v(2), of example_now no_faults example_site example_now]
      nf f e ne ok u
    by (simp add: Let_def)
qed

lemma delete_below_regular_file:
  "(let req = example_request ''DELETE'' ''/index.html/foo'';
        p = js ''/srv/public/index.html/foo'';
        out = handler (js ''/srv'') example_now no_faults req example_site
    in absPath (parseAndResolvePath (js ''/srv'') (request_url req)) = Some p
       \<and> files example_site p = None
       \<and> unlink_error (on_unlink no_faults) example_site p = Some (js ''ENOTDIR'')
       \<and> status_of out = Some 500
       \<and> files (snd out) = files example_site)"
proof -
  let ?req = "example_request ''DELETE'' ''/index.html/foo''"
  let ?p = "js ''/srv/public/index.html/foo''"
  have m: "request_method ?req = js ''DELETE''"
    by (simp add: request_eval)
  have p: "absPath (parseAndResolvePath (js ''/srv'') (request_url ?req)) = Some ?p"
    by (simp add: request_eval parseAndResolvePath_def path_eval decode_eval)
  have v: "valid_path ?p"
    by (simp add: valid_path_def js_def)
  have nf: "on_unlink no_faults = None"
    by (simp add: no_faults_def)
  have f: "files example_site ?p = None"
    by (simp add: example_site_def js_def)
  have u: "under_file example_site ?p"
    by (simp add: under_file_def ancestors_def example_site_def js_def)
  have e: "unlink_error (on_unlink no_faults) example_site ?p = Some (js ''ENOTDIR'')"
    using nf u by (simp add: unlink_error_cases(3))
  show ?thesis
    using delete_answers [OF m p v, of example_now no_faults example_site example_now] nf f u e p
    by (simp add: Let_def)
qed

text \<open>
  C5. For the path \<open>/foo.txt\<close> and every body \<open>B\<close> (the concatenation of the chunks of the
  request): after a successful PUT of \<open>B\<close>, a GET of the same path whose \<open>stat\<close> and read
  are answered from the file system returns 200 with body exactly \<open>B\<close>, the
  \<open>Content-Type\<close> of \<open>.txt\<close> and a \<open>Content-Length\<close> that is the decimal byte length of \<open>B\<close>.
  A PUT answered 200 or 201 has found the parent directory, so nothing more is assumed of
  the file system.
\<close>

theorem put_then_get_round_trip:
  assumes "absolute cwd"
    and "request_method put = js ''PUT''" and "request_url put = js ''/foo.txt''"
    and "request_method get = js ''GET''" and "request_url get = js ''/foo.txt''"
    and "status_of (handler cwd now flt put w) = Some 200
         \<or> status_of (handler cwd now flt put w) = Some 201"
    and "on_stat flt' = None" and "on_readFile flt' = None"
  shows "(let out = handler cwd now' flt' get (snd (handler cwd now flt put w))
          in status_of out = Some 200
             \<and> body_of out = Some (concat (chunks put))
             \<and> header_of out (js ''Content-Type'') = Some (js ''text/plain; charset=utf-8'')
             \<and> header_of out (js ''Content-Length'')
                 = Some (decimal (length (concat (chunks put)))))"
proof -
  let ?p = "PUBLIC_DIR cwd @ js ''/foo.txt''"
  let ?B = "concat (chunks put)"
  have "decodeURIComponent (pathname_of (js ''/foo.txt'')) = Some (SLASH # js ''foo.txt'')"
    by (simp add: path_eval decode_eval)
  moreover have "regular (js ''foo.txt'')"
    by (simp add: regular_def js_def)
  ultimately have "parseAndResolvePath cwd (js ''/foo.txt'')
      = \<lparr>absPath = Some (PUBLIC_DIR cwd @ SLASH # js ''foo.txt''), status = None\<rparr>"
    using parse_name [OF assms(1), of "js ''/foo.txt''" "js ''foo.txt''"] by simp
  then have resolved: "absPath (parseAndResolvePath cwd (js ''/foo.txt'')) = Some ?p"
    by (simp add: js_def)
  have put: "handler cwd now flt put w = handlePut now flt ?p put w"
    using handler_dispatch(2) [of cwd put ?p] resolved assms(2,3) by simp
  have get: "handler cwd now' flt' get w1 = handleGet now' flt' ?p w1" for w1
    using handler_dispatch(1) [of cwd get ?p] resolved assms(4,5) by simp
  note success = handlePut_success [OF assms(6) [unfolded put]]
  have answer: "fst (handleGet now' flt' ?p (snd (handlePut now flt ?p put w)))
      = Some (send now' 200 [(js ''Content-Type'', js ''text/plain; charset=utf-8''),
                             (js ''Content-Length'', decimal (length ?B))]
                (Some (BufferBody ?B)))"
    using handleGet_file [OF success(1) assms(7,8) success(2)]
    by (simp only: guessContentType_foo_txt)
  show ?thesis
    unfolding put get Let_def status_of_def body_of_def header_of_def answer send_typed_sized
    by (simp add: getHeader_def toLowerCase_def toBuffer_def js_def)
qed

lemma example_put_created:
  "status_of (handler (js ''/srv'') example_now no_faults
                ((example_request ''PUT'' ''/foo.txt'')\<lparr>chunks := [[0x68], [0x69]]\<rparr>)
                example_site) = Some 201"
proof -
  let ?put = "(example_request ''PUT'' ''/foo.txt'')\<lparr>chunks := [[0x68], [0x69]]\<rparr>"
  let ?p = "js ''/srv/public/foo.txt''"
  have m: "request_method ?put = js ''PUT''"
    by (simp add: request_eval)
  have p: "absPath (parseAndResolvePath (js ''/srv'') (request_url ?put)) = Some ?p"
    by (simp add: request_eval parseAndResolvePath_def path_eval decode_eval)
  have d: "path_dirname ?p = js ''/srv/public''"
    by (simp add: path_dirname_def js_def)
  have parent: "files example_site (path_dirname ?p) = Some Directory"
    unfolding d by (simp add: example_site_def js_def)
  have absent: "files example_site ?p = None"
    by (simp add: example_site_def js_def)
  have nf: "on_stat_parent no_faults = None" "on_stat no_faults = None"
    "on_writeFile no_faults = None"
    by (simp_all add: no_faults_def)
  have drained: "\<not> stream_error ?put"
    by (simp add: example_request_def)
  have v: "valid_path ?p"
    by (simp add: valid_path_def js_def)
  have no_error: "write_error (on_writeFile no_faults) example_site ?p = None"
    using parent absent nf(3) by (simp add: write_error_ok)
  have "status_of (handlePut example_now no_faults ?p ?put example_site) = Some 201"
    using handlePut_written(1) [OF v nf(1) parent drained no_error, of example_now] absent nf(2)
    by (simp add: stat_answer_def)
  then show ?thesis
    using handler_dispatch(2) [OF p m] by simp
qed

theorem put_then_get_round_trip_witness:
  "(let put = (example_request ''PUT'' ''/foo.txt'')\<lparr>chunks := [[0x68], [0x69]]\<rparr>;
        get = example_request ''GET'' ''/foo.txt'';
        out1 = handler (js ''/srv'') example_now no_faults put example_site;
        out2 = handler (js ''/srv'') example_now no_faults get (snd out1)
    in absolute (js ''/srv'')
       \<and> request_method put = js ''PUT'' \<and> request_url put = js ''/foo.txt''
       \<and> request_method get = js ''GET'' \<and> request_url get = js ''/foo.txt''
       \<and> status_of out1 = Some 201
       \<and> on_stat no_faults = None \<and> on_readFile no_faults = None
       \<and> status_of out2 = Some 200
       \<and> body_of out2 = Some [0x68, 0x69]
       \<and> header_of out2 (js ''Content-Type'') = Some (js ''text/plain; charset=utf-8'')
       \<and> header_of out2 (js ''Content-Length'') = Some (js ''2''))"
proof -
  let ?put = "(example_request ''PUT'' ''/foo.txt'')\<lparr>chunks := [[0x68], [0x69]]\<rparr>"
  let ?get = "example_request ''GET'' ''/foo.txt''"
  have a: "absolute (js ''/srv'')"
    by (simp add: absolute_def js_def)
  have m: "request_method ?put = js ''PUT''" "request_url ?put = js ''/foo.txt''"
    "request_method ?get = js ''GET''" "request_url ?get = js ''/foo.txt''"
    by (simp_all add: request_eval)
  have nf: "on_stat no_faults = None" "on_readFile no_faults = None"
    by (simp_all add: no_faults_def)
  have created: "status_of (handler (js ''/srv'') example_now no_faults ?put example_site)
                   = Some 201"
    by (rule example_put_created)
  then have ok: "status_of (handler (js ''/srv'') example_now no_faults ?put example_site)
                   = Some 200
      \<or> status_of (handler (js ''/srv'') example_now no_faults ?put example_site) = Some 201"
    by simp
  have data: "concat (chunks ?put) = [0x68, 0x69]"
    by (simp add: example_request_def)
  have two: "decimal (Suc (Suc 0)) = js ''2''"
    by (simp add: decimal.simps js_def)
  show ?thesis
    using put_then_get_round_trip [OF a m ok nf, of example_now] a m created nf
    by (simp add: Let_def data two)
qed

end
